theory Spec2Isabelle
  imports Main "HOL-Library.Word"
begin

section \<open>The gossip store of libopenstorage/gossip (proto/gossip_store.go)\<close>

text \<open>
  The store keeps one \<open>NodeInfo\<close> per known node in \<open>nodeMap\<close>, a failure-domain
  index \<open>failureDomainsMap\<close> and the externally asserted \<open>clusterSize\<close>.
  Conventions of the embedding:
  \<^item> a Go map is a partial function; a Go map that may be \<open>nil\<close> is an \<open>option\<close> of
    one (\<open>None\<close> is the nil map: reads see no key, a write panics);
  \<^item> a \<open>range\<close> statement over a map visits every key once in an order Go leaves
    open, so a function with such a loop takes the visiting order as a list
    (\<open>ranges ks m\<close> says that \<open>ks\<close> is such an order for \<open>m\<close>) and folds over it;
  \<^item> an operation runs under the lock and is given one reading of the clock, the
    parameter \<open>now\<close>, which stands for every \<open>time.Now()\<close> it evaluates;
    \<open>time.Time\<close> is an integer instant and \<open>Before\<close> is \<open><\<close>;
  \<^item> a map held in a struct is a value: the \<open>Value\<close> map of an entry and the buckets
    of the index are written only through the entry or the bucket that holds them;
  \<^item> the mutex only serialises the operations, each of which is one function
    from the store to the new store (and its return value).
\<close>

subsection \<open>Types of the \<open>types\<close> package\<close>

type_synonym NodeId = string
type_synonym StoreKey = string
type_synonym Time = int

text \<open>A store value is an \<open>interface{}\<close>: nil or some dynamic value the store never inspects.\<close>

datatype StoreValue = NilValue | StringValue string | IntValue int

type_synonym StoreMap = "StoreKey \<rightharpoonup> StoreValue"

text \<open>
  Modelled from the spec: the declarations of the \<open>types\<close> package (\<open>NodeStatus\<close>,
  \<open>NodeInfo\<close>, \<open>NodeUpdate\<close>, \<open>NodeValue\<close>) are not among the sources; the statuses
  and the fields are those of the data model, and the zero value of \<open>NodeStatus\<close> is
  its first constant, \<open>NODE_STATUS_INVALID\<close>.
\<close>

datatype NodeStatus =
    NODE_STATUS_INVALID
  | NODE_STATUS_NEVER_GOSSIPED
  | NODE_STATUS_NOT_IN_QUORUM
  | NODE_STATUS_UP
  | NODE_STATUS_DOWN
  | NODE_STATUS_SUSPECT
  | NODE_STATUS_LEFT

record NodeInfo =
  Id_n :: NodeId
  GenNumber :: "64 word"
  LastUpdateTs :: Time
  WaitForGenUpdateTs :: Time
  Status :: NodeStatus
  Value :: "StoreMap option"
  QuorumMember :: bool
  ClusterDomain :: string
  Addr :: string

record NodeUpdate =
  Addr_u :: string
  QuorumMember_u :: bool
  ClusterDomain_u :: string

record NodeValue =
  Id_v :: NodeId
  GenNumber_v :: "64 word"
  LastUpdateTs_v :: Time
  Status_v :: NodeStatus
  Value_v :: StoreValue

type_synonym NodeInfoMap = "NodeId \<rightharpoonup> NodeInfo"
type_synonym NodeValueMap = "NodeId \<rightharpoonup> NodeValue"
type_synonym ClusterDomainsQuorumMembersMap = "string \<rightharpoonup> nat" \<comment> \<open>domain label to a count\<close>

text \<open>The zero values Go yields for a key that is not in a map.\<close>

definition zeroNodeInfo :: NodeInfo where
  "zeroNodeInfo =
     \<lparr>Id_n = [], GenNumber = 0, LastUpdateTs = 0, WaitForGenUpdateTs = 0,
      Status = NODE_STATUS_INVALID, Value = None, QuorumMember = False,
      ClusterDomain = [], Addr = []\<rparr>"

definition zeroNodeUpdate :: NodeUpdate where
  "zeroNodeUpdate = \<lparr>Addr_u = [], QuorumMember_u = False, ClusterDomain_u = []\<rparr>"

subsection \<open>The store\<close>

type_synonym nodeIdMap = "NodeId \<rightharpoonup> string"

record GossipStoreImpl =
  id_s :: NodeId
  GenNumber_s :: "64 word"
  nodeMap :: NodeInfoMap
  selfCorrect :: bool
  GossipVersion :: string
  ClusterId :: string
  clusterSize :: nat
  failureDomainsMap :: "(string \<rightharpoonup> nodeIdMap) option"
  lostQuorumTs :: Time

datatype error = NodeNotFound NodeId | NodeNotInMap NodeId

datatype panic = AssignmentToNilMap

text \<open>\<open>ranges ks m\<close>: the list \<open>ks\<close> is an order in which \<open>range m\<close> may visit the keys.\<close>

definition ranges :: "'k list \<Rightarrow> ('k \<rightharpoonup> 'v) \<Rightarrow> bool" where
  "ranges ks m \<longleftrightarrow> distinct ks \<and> set ks = dom m"

text \<open>\<open>nodeInfo, _ := s.nodeMap[s.id]\<close>: the lookup whose \<open>ok\<close> is dropped.\<close>

definition lookupUnchecked :: "NodeInfoMap \<Rightarrow> NodeId \<Rightarrow> NodeInfo" where
  "lookupUnchecked m k = (case m k of None \<Rightarrow> zeroNodeInfo | Some n \<Rightarrow> n)"

text \<open>The store \<open>&GossipStoreImpl{}\<close> before \<open>InitStore\<close>.\<close>

definition zeroStore :: GossipStoreImpl where
  "zeroStore =
     \<lparr>id_s = [], GenNumber_s = 0, nodeMap = Map.empty, selfCorrect = False,
      GossipVersion = [], ClusterId = [], clusterSize = 0,
      failureDomainsMap = None, lostQuorumTs = 0\<rparr>"

definition InitStore ::
  "GossipStoreImpl \<Rightarrow> NodeId \<Rightarrow> string \<Rightarrow> NodeStatus \<Rightarrow> string \<Rightarrow> string \<Rightarrow> Time
     \<Rightarrow> GossipStoreImpl" where
  "InitStore s ident version status clusterId selfClusterDomain now =
     (let nodeInfo =
            \<lparr>Id_n = ident, GenNumber = GenNumber_s s, LastUpdateTs = now,
             WaitForGenUpdateTs = 0, Status = status, Value = Some Map.empty,
             QuorumMember = False, ClusterDomain = selfClusterDomain, Addr = []\<rparr>
      in s\<lparr>nodeMap := [ident \<mapsto> nodeInfo], id_s := ident, selfCorrect := True,
            GossipVersion := version, ClusterId := clusterId\<rparr>)"

definition NewGossipStore :: "NodeId \<Rightarrow> string \<Rightarrow> string \<Rightarrow> string \<Rightarrow> Time \<Rightarrow> GossipStoreImpl" where
  "NewGossipStore ident version clusterId selfClusterDomain now =
     (InitStore zeroStore ident version NODE_STATUS_NOT_IN_QUORUM clusterId selfClusterDomain now)
       \<lparr>selfCorrect := False\<rparr>"

definition UpdateLostQuorumTs :: "GossipStoreImpl \<Rightarrow> Time \<Rightarrow> GossipStoreImpl" where
  "UpdateLostQuorumTs s now = s\<lparr>lostQuorumTs := now\<rparr>"

definition updateSelfTs :: "GossipStoreImpl \<Rightarrow> Time \<Rightarrow> GossipStoreImpl" where
  "updateSelfTs s now =
     (let nodeInfo = lookupUnchecked (nodeMap s) (id_s s)
      in s\<lparr>nodeMap := (nodeMap s)(id_s s \<mapsto> nodeInfo\<lparr>LastUpdateTs := now\<rparr>)\<rparr>)"

text \<open>
  \<open>nodeInfo.Value[key] = val\<close> writes into the map the entry refers to, and panics
  when that map is nil; the panic is the \<open>Inl\<close> result.
\<close>

definition UpdateSelf ::
  "GossipStoreImpl \<Rightarrow> StoreKey \<Rightarrow> StoreValue \<Rightarrow> Time \<Rightarrow> panic + GossipStoreImpl" where
  "UpdateSelf s key val now =
     (let nodeInfo = lookupUnchecked (nodeMap s) (id_s s)
      in case Value nodeInfo of
           None \<Rightarrow> Inl AssignmentToNilMap
         | Some vm \<Rightarrow>
             Inr (s\<lparr>nodeMap := (nodeMap s)(id_s s \<mapsto>
                      nodeInfo\<lparr>Value := Some (vm(key \<mapsto> val)), LastUpdateTs := now\<rparr>)\<rparr>))"

definition updateSelfClusterDomain ::
  "GossipStoreImpl \<Rightarrow> string \<Rightarrow> Time \<Rightarrow> bool \<times> GossipStoreImpl" where
  "updateSelfClusterDomain s selfClusterDomain now =
     (let nodeInfo = lookupUnchecked (nodeMap s) (id_s s);
          previousClusterDomain = ClusterDomain nodeInfo
      in if previousClusterDomain \<noteq> selfClusterDomain
         then (True, s\<lparr>nodeMap := (nodeMap s)(id_s s \<mapsto>
                         nodeInfo\<lparr>ClusterDomain := selfClusterDomain, LastUpdateTs := now\<rparr>)\<rparr>)
         else (False, s))"

definition UpdateNodeStatus ::
  "GossipStoreImpl \<Rightarrow> NodeId \<Rightarrow> NodeStatus \<Rightarrow> Time \<Rightarrow> error option \<times> GossipStoreImpl" where
  "UpdateNodeStatus s nodeId status now =
     (case nodeMap s nodeId of
        None \<Rightarrow> (Some (NodeNotFound nodeId), s)
      | Some nodeInfo \<Rightarrow>
          (None, s\<lparr>nodeMap := (nodeMap s)(nodeId \<mapsto>
                      nodeInfo\<lparr>Status := status, LastUpdateTs := now\<rparr>)\<rparr>))"

definition UpdateSelfStatus :: "GossipStoreImpl \<Rightarrow> NodeStatus \<Rightarrow> Time \<Rightarrow> GossipStoreImpl" where
  "UpdateSelfStatus s status now = snd (UpdateNodeStatus s (id_s s) status now)"

definition GetSelfStatus :: "GossipStoreImpl \<Rightarrow> NodeStatus" where
  "GetSelfStatus s = Status (lookupUnchecked (nodeMap s) (id_s s))"

definition statusValid :: "NodeStatus \<Rightarrow> bool" where
  "statusValid s \<longleftrightarrow> s \<noteq> NODE_STATUS_INVALID \<and> s \<noteq> NODE_STATUS_NEVER_GOSSIPED"

text \<open>
  One iteration of the loop of \<open>GetStoreKeyValue\<close>, at the key \<open>ident\<close> of \<open>nodeMap\<close>;
  \<open>len(nodeInfo.Value) == 0\<close> is \<open>vm = Map.empty\<close>, and \<open>val\<close> is the nil interface
  when \<open>key\<close> is not in the map.
\<close>

definition storeKeyValueStep ::
  "GossipStoreImpl \<Rightarrow> StoreKey \<Rightarrow> NodeId \<Rightarrow> NodeValueMap \<Rightarrow> NodeValueMap" where
  "storeKeyValueStep s key ident nodeValueMap =
     (case nodeMap s ident of
        None \<Rightarrow> nodeValueMap
      | Some nodeInfo \<Rightarrow>
          (case Value nodeInfo of
             None \<Rightarrow> nodeValueMap
           | Some vm \<Rightarrow>
               if statusValid (Status nodeInfo)
               then (let ok = (vm = Map.empty);
                         val = (case vm key of None \<Rightarrow> NilValue | Some v \<Rightarrow> v);
                         exists = (vm key \<noteq> None)
                     in if ok \<or> exists
                        then nodeValueMap(ident \<mapsto>
                               \<lparr>Id_v = Id_n nodeInfo, GenNumber_v = GenNumber nodeInfo,
                                LastUpdateTs_v = LastUpdateTs nodeInfo,
                                Status_v = Status nodeInfo, Value_v = val\<rparr>)
                        else nodeValueMap)
               else nodeValueMap))"

definition GetStoreKeyValue :: "GossipStoreImpl \<Rightarrow> StoreKey \<Rightarrow> NodeId list \<Rightarrow> NodeValueMap" where
  "GetStoreKeyValue s key ks = fold (storeKeyValueStep s key) ks Map.empty"

definition addNodeUnlocked ::
  "GossipStoreImpl \<Rightarrow> NodeId \<Rightarrow> NodeStatus \<Rightarrow> bool \<Rightarrow> string \<Rightarrow> Time \<Rightarrow> GossipStoreImpl" where
  "addNodeUnlocked s ident status quorumMember failureDomain now =
     (case nodeMap s ident of
        Some nodeInfo \<Rightarrow>
          s\<lparr>nodeMap := (nodeMap s)(ident \<mapsto>
               nodeInfo\<lparr>Status := status, LastUpdateTs := now,
                        QuorumMember := quorumMember, ClusterDomain := failureDomain\<rparr>)\<rparr>
      | None \<Rightarrow>
          s\<lparr>nodeMap := (nodeMap s)(ident \<mapsto>
               \<lparr>Id_n = ident, GenNumber = 0, LastUpdateTs = now, WaitForGenUpdateTs = now,
                Status = status, Value = Some Map.empty, QuorumMember = quorumMember,
                ClusterDomain = failureDomain, Addr = []\<rparr>)\<rparr>)"

definition AddNode ::
  "GossipStoreImpl \<Rightarrow> NodeId \<Rightarrow> NodeStatus \<Rightarrow> bool \<Rightarrow> string \<Rightarrow> Time \<Rightarrow> GossipStoreImpl" where
  "AddNode s ident status quorumMember failureDomain now =
     addNodeUnlocked s ident status quorumMember failureDomain now"

definition removeNodeUnlocked :: "GossipStoreImpl \<Rightarrow> NodeId \<Rightarrow> error option \<times> GossipStoreImpl" where
  "removeNodeUnlocked s ident =
     (case nodeMap s ident of
        None \<Rightarrow> (Some (NodeNotInMap ident), s)
      | Some _ \<Rightarrow> (None, s\<lparr>nodeMap := (nodeMap s)(ident := None)\<rparr>))"

definition RemoveNode :: "GossipStoreImpl \<Rightarrow> NodeId \<Rightarrow> error option \<times> GossipStoreImpl" where
  "RemoveNode s ident = removeNodeUnlocked s ident"

definition getLocalState :: "GossipStoreImpl \<Rightarrow> NodeId list \<Rightarrow> NodeInfoMap" where
  "getLocalState s ks =
     fold (\<lambda>key localCopy. case nodeMap s key of
                              None \<Rightarrow> localCopy
                            | Some v \<Rightarrow> localCopy(key \<mapsto> v)) ks Map.empty"

definition GetLocalState :: "GossipStoreImpl \<Rightarrow> NodeId list \<Rightarrow> NodeInfoMap" where
  "GetLocalState s ks = getLocalState s ks"

definition GetLocalNodeInfo :: "GossipStoreImpl \<Rightarrow> NodeId \<Rightarrow> NodeInfo \<times> error option" where
  "GetLocalNodeInfo s ident =
     (case nodeMap s ident of
        None \<Rightarrow> (zeroNodeInfo, Some (NodeNotFound ident))
      | Some nodeInfo \<Rightarrow> (nodeInfo, None))"

text \<open>One iteration of the loop of \<open>Update\<close>, at the key \<open>ident\<close> of \<open>diff\<close>.\<close>

definition updateStep :: "NodeInfoMap \<Rightarrow> NodeId \<Rightarrow> GossipStoreImpl \<Rightarrow> GossipStoreImpl" where
  "updateStep diff ident s =
     (case diff ident of
        None \<Rightarrow> s
      | Some newNodeInfo \<Rightarrow>
          if ident = id_s s then s
          else (case nodeMap s ident of
                  None \<Rightarrow> s
                | Some selfValue \<Rightarrow>
                    if \<not> statusValid (Status selfValue)
                       \<or> LastUpdateTs selfValue < LastUpdateTs newNodeInfo
                    then s\<lparr>nodeMap := (nodeMap s)(ident \<mapsto>
                              newNodeInfo\<lparr>Status := Status selfValue\<rparr>)\<rparr>
                    else s))"

definition Update :: "GossipStoreImpl \<Rightarrow> NodeInfoMap \<Rightarrow> NodeId list \<Rightarrow> GossipStoreImpl" where
  "Update s diff ds = fold (updateStep diff) ds s"

text \<open>
  The first loop of \<open>updateClusterDomainsMap\<close>,
  \<^verbatim>\<open>for fd, nodeIdList := range s.failureDomainsMap { if fd == failureDomain { continue };
    if _, ok := nodeIdList[nodeId]; ok { delete(nodeIdList, nodeId); s.failureDomainsMap[fd] = nodeIdList } }\<close>,
  rewrites each bucket it visits on its own: \<open>clearOtherDomainsLoop\<close> is the loop
  for a visiting order \<open>fds\<close>, \<open>clearOtherDomains\<close> is the map every visiting order
  produces (lemma \<open>clearOtherDomainsLoop_eq\<close>), and \<open>updateClusterDomainsMap\<close> uses the
  latter. No two buckets share a \<open>nodeIdMap\<close>: each is made by \<open>make\<close> in this function.
\<close>

definition clearOtherDomainsStep ::
  "string \<Rightarrow> NodeId \<Rightarrow> string \<Rightarrow> (string \<rightharpoonup> nodeIdMap) \<Rightarrow> (string \<rightharpoonup> nodeIdMap)" where
  "clearOtherDomainsStep failureDomain nodeId fd m =
     (if fd = failureDomain then m
      else (case m fd of
              None \<Rightarrow> m
            | Some nodeIdList \<Rightarrow>
                if nodeIdList nodeId \<noteq> None then m(fd \<mapsto> nodeIdList(nodeId := None)) else m))"

definition clearOtherDomainsLoop ::
  "string list \<Rightarrow> string \<Rightarrow> NodeId \<Rightarrow> (string \<rightharpoonup> nodeIdMap) \<Rightarrow> (string \<rightharpoonup> nodeIdMap)" where
  "clearOtherDomainsLoop fds failureDomain nodeId m =
     fold (clearOtherDomainsStep failureDomain nodeId) fds m"

definition clearOtherDomains ::
  "string \<Rightarrow> NodeId \<Rightarrow> (string \<rightharpoonup> nodeIdMap) \<Rightarrow> (string \<rightharpoonup> nodeIdMap)" where
  "clearOtherDomains failureDomain nodeId m =
     (\<lambda>fd. if fd = failureDomain then m fd
           else (case m fd of
                   None \<Rightarrow> None
                 | Some nodeIdList \<Rightarrow>
                     if nodeIdList nodeId \<noteq> None then Some (nodeIdList(nodeId := None))
                     else Some nodeIdList))"

definition updateClusterDomainsMap :: "GossipStoreImpl \<Rightarrow> string \<Rightarrow> NodeId \<Rightarrow> GossipStoreImpl" where
  "updateClusterDomainsMap s failureDomain nodeId =
     (let m0 = (case failureDomainsMap s of None \<Rightarrow> Map.empty | Some m \<Rightarrow> m);
          m1 = clearOtherDomains failureDomain nodeId m0
      in case m1 failureDomain of
           Some nodeIdList \<Rightarrow>
             if nodeIdList nodeId = None
             then s\<lparr>failureDomainsMap := Some (m1(failureDomain \<mapsto> nodeIdList(nodeId \<mapsto> [])))\<rparr>
             else s\<lparr>failureDomainsMap := Some m1\<rparr>
         | None \<Rightarrow> s\<lparr>failureDomainsMap := Some (m1(failureDomain \<mapsto> [nodeId \<mapsto> []]))\<rparr>)"

text \<open>Indexing the possibly nil \<open>failureDomainsMap\<close>; a missing bucket reads as nil.\<close>

definition getNodesFromClusterDomain :: "GossipStoreImpl \<Rightarrow> string \<Rightarrow> nodeIdMap option" where
  "getNodesFromClusterDomain s failureDomain =
     (case failureDomainsMap s of None \<Rightarrow> None | Some m \<Rightarrow> m failureDomain)"

text \<open>
  \<open>updateCluster\<close> in two parts. \<open>reconcileNodes\<close> is the function up to the end of
  the two loops over \<open>removeNodeIds\<close> and \<open>addNodeIds\<close>, which are \<open>removeNodes\<close>
  and \<open>addNodes\<close>; \<open>ks\<close> is the order in which
  \<open>nodeMap\<close> is ranged over and \<open>ps\<close> the order for \<open>peers\<close>, so \<open>len(peers)\<close> is
  \<open>length ps\<close>. \<open>refreshNode\<close> is one iteration of the last loop, at the key \<open>ident\<close>
  of \<open>nodeMap\<close>, and \<open>ks2\<close> is the order of that loop.
\<close>

text \<open>\<open>update, _ := peers[nodeId]\<close>: the zero \<open>NodeUpdate\<close> for an id that is not in \<open>peers\<close>.\<close>

definition peerUpdate :: "(NodeId \<rightharpoonup> NodeUpdate) \<Rightarrow> NodeId \<Rightarrow> NodeUpdate" where
  "peerUpdate peers nodeId = (case peers nodeId of None \<Rightarrow> zeroNodeUpdate | Some u \<Rightarrow> u)"

definition removeNodes :: "NodeId list \<Rightarrow> GossipStoreImpl \<Rightarrow> GossipStoreImpl" where
  "removeNodes removeNodeIds s =
     fold (\<lambda>nodeId st. snd (removeNodeUnlocked st nodeId)) removeNodeIds s"

definition addNodes ::
  "(NodeId \<rightharpoonup> NodeUpdate) \<Rightarrow> Time \<Rightarrow> NodeId list \<Rightarrow> GossipStoreImpl \<Rightarrow> GossipStoreImpl" where
  "addNodes peers now addNodeIds s =
     fold (\<lambda>nodeId st.
             let update = peerUpdate peers nodeId
             in addNodeUnlocked st nodeId NODE_STATUS_DOWN
                  (QuorumMember_u update) (ClusterDomain_u update) now)
       addNodeIds s"

definition reconcileNodes ::
  "GossipStoreImpl \<Rightarrow> (NodeId \<rightharpoonup> NodeUpdate) \<Rightarrow> NodeId list \<Rightarrow> NodeId list \<Rightarrow> Time
     \<Rightarrow> GossipStoreImpl" where
  "reconcileNodes s peers ks ps now =
     (let removeNodeIds = filter (\<lambda>ident. peers ident = None) ks;
          addNodeIds = filter (\<lambda>ident. nodeMap s ident = None) ps;
          s1 = s\<lparr>clusterSize := length ps\<rparr>;
          s2 = removeNodes removeNodeIds s1
      in addNodes peers now addNodeIds s2)"

definition refreshNode ::
  "(NodeId \<rightharpoonup> NodeUpdate) \<Rightarrow> NodeId
     \<Rightarrow> GossipStoreImpl \<times> ClusterDomainsQuorumMembersMap
     \<Rightarrow> GossipStoreImpl \<times> ClusterDomainsQuorumMembersMap" where
  "refreshNode peers ident acc =
     (let s = fst acc; quorumMembersMap = snd acc
      in case nodeMap s ident of
           None \<Rightarrow> acc
         | Some nodeInfo0 \<Rightarrow>
             (let update = peerUpdate peers ident;
                  ok = (peers ident \<noteq> None);
                  nodeInfo = (if ok then nodeInfo0\<lparr>QuorumMember := QuorumMember_u update,
                                                 ClusterDomain := ClusterDomain_u update,
                                                 Addr := Addr_u update\<rparr>
                              else nodeInfo0);
                  s' = (if ok
                        then updateClusterDomainsMap
                               (s\<lparr>nodeMap := (nodeMap s)(ident \<mapsto> nodeInfo)\<rparr>)
                               (ClusterDomain_u update) ident
                        else s)
              in if QuorumMember nodeInfo
                 then (let quorumMembersInDomain =
                             (case quorumMembersMap (ClusterDomain_u update) of
                                None \<Rightarrow> 0 | Some c \<Rightarrow> c)
                       in (s', quorumMembersMap(ClusterDomain_u update \<mapsto>
                                 quorumMembersInDomain + 1)))
                 else (s', quorumMembersMap)))"

definition updateCluster ::
  "GossipStoreImpl \<Rightarrow> (NodeId \<rightharpoonup> NodeUpdate) \<Rightarrow> NodeId list \<Rightarrow> NodeId list \<Rightarrow> NodeId list
     \<Rightarrow> Time \<Rightarrow> GossipStoreImpl \<times> ClusterDomainsQuorumMembersMap" where
  "updateCluster s peers ks ps ks2 now =
     fold (refreshNode peers) ks2 (reconcileNodes s peers ks ps now, Map.empty)"

text \<open>The visiting orders of one call of \<open>updateCluster\<close> are orders of the maps ranged over.\<close>

definition clusterOrders ::
  "GossipStoreImpl \<Rightarrow> (NodeId \<rightharpoonup> NodeUpdate) \<Rightarrow> NodeId list \<Rightarrow> NodeId list \<Rightarrow> NodeId list
     \<Rightarrow> Time \<Rightarrow> bool" where
  "clusterOrders s peers ks ps ks2 now \<longleftrightarrow>
     ranges ks (nodeMap s) \<and> ranges ps peers
     \<and> ranges ks2 (nodeMap (reconcileNodes s peers ks ps now))"

subsection \<open>Operations and reachable stores\<close>

text \<open>
  The state-changing methods of the store as one datatype, with the visiting orders of
  their loops as arguments; \<open>exec\<close> runs one on a store (\<open>Inl\<close> when it panics) and
  \<open>opOrders\<close> says that the visiting orders are orders of the maps ranged over.
\<close>

datatype Op =
    OpInitStore NodeId string NodeStatus string string Time
  | OpUpdateLostQuorumTs Time
  | OpUpdateSelfTs Time
  | OpUpdateSelf StoreKey StoreValue Time
  | OpUpdateSelfClusterDomain string Time
  | OpUpdateSelfStatus NodeStatus Time
  | OpUpdateNodeStatus NodeId NodeStatus Time
  | OpAddNode NodeId NodeStatus bool string Time
  | OpRemoveNode NodeId
  | OpUpdate NodeInfoMap "NodeId list"
  | OpUpdateCluster "NodeId \<rightharpoonup> NodeUpdate" "NodeId list" "NodeId list" "NodeId list" Time
  | OpUpdateClusterDomainsMap string NodeId

fun exec :: "GossipStoreImpl \<Rightarrow> Op \<Rightarrow> panic + GossipStoreImpl" where
  "exec s (OpInitStore ident version status clusterId selfClusterDomain now) =
     Inr (InitStore s ident version status clusterId selfClusterDomain now)"
| "exec s (OpUpdateLostQuorumTs now) = Inr (UpdateLostQuorumTs s now)"
| "exec s (OpUpdateSelfTs now) = Inr (updateSelfTs s now)"
| "exec s (OpUpdateSelf key val now) = UpdateSelf s key val now"
| "exec s (OpUpdateSelfClusterDomain selfClusterDomain now) =
     Inr (snd (updateSelfClusterDomain s selfClusterDomain now))"
| "exec s (OpUpdateSelfStatus status now) = Inr (UpdateSelfStatus s status now)"
| "exec s (OpUpdateNodeStatus nodeId status now) = Inr (snd (UpdateNodeStatus s nodeId status now))"
| "exec s (OpAddNode ident status quorumMember failureDomain now) =
     Inr (AddNode s ident status quorumMember failureDomain now)"
| "exec s (OpRemoveNode ident) = Inr (snd (RemoveNode s ident))"
| "exec s (OpUpdate diff ds) = Inr (Update s diff ds)"
| "exec s (OpUpdateCluster peers ks ps ks2 now) = Inr (fst (updateCluster s peers ks ps ks2 now))"
| "exec s (OpUpdateClusterDomainsMap failureDomain nodeId) =
     Inr (updateClusterDomainsMap s failureDomain nodeId)"

fun opOrders :: "GossipStoreImpl \<Rightarrow> Op \<Rightarrow> bool" where
  "opOrders s (OpUpdate diff ds) = ranges ds diff"
| "opOrders s (OpUpdateCluster peers ks ps ks2 now) = clusterOrders s peers ks ps ks2 now"
| "opOrders s _ = True"

text \<open>The operations that delete the self entry: the code has no guard against them.\<close>

fun dropsSelf :: "GossipStoreImpl \<Rightarrow> Op \<Rightarrow> bool" where
  "dropsSelf s (OpRemoveNode ident) = (ident = id_s s)"
| "dropsSelf s (OpUpdateCluster peers ks ps ks2 now) = (peers (id_s s) = None)"
| "dropsSelf s _ = False"

text \<open>
  \<open>reach G s\<close>: the store \<open>s\<close> is reached from a store made by \<open>NewGossipStore\<close> by
  operations that do not panic and that the guard \<open>G\<close> admits.
\<close>

inductive reach :: "(GossipStoreImpl \<Rightarrow> Op \<Rightarrow> bool) \<Rightarrow> GossipStoreImpl \<Rightarrow> bool"
  for G :: "GossipStoreImpl \<Rightarrow> Op \<Rightarrow> bool" where
  new: "reach G (NewGossipStore ident version clusterId selfClusterDomain now)"
| step: "reach G s \<Longrightarrow> G s op \<Longrightarrow> opOrders s op \<Longrightarrow> exec s op = Inr s' \<Longrightarrow> reach G s'"

code_pred reach .

definition anyOp :: "GossipStoreImpl \<Rightarrow> Op \<Rightarrow> bool" where
  "anyOp s op = True"

definition keepsSelf :: "GossipStoreImpl \<Rightarrow> Op \<Rightarrow> bool" where
  "keepsSelf s op = (\<not> dropsSelf s op)"

subsection \<open>What the loops of \<open>updateCluster\<close> compute\<close>

text \<open>
  The entry \<open>addNodeUnlocked\<close> stores for an id that is not in \<open>nodeMap\<close>, as
  \<open>updateCluster\<close> calls it; the refresh of an entry by the last loop; the effect of
  \<open>updateClusterDomainsMap\<close> on the index, and membership in the index; one step of
  the count of quorum members, and the count over a visiting order.
\<close>

definition addedNode :: "(NodeId \<rightharpoonup> NodeUpdate) \<Rightarrow> Time \<Rightarrow> NodeId \<Rightarrow> NodeInfo" where
  "addedNode peers now ident =
     \<lparr>Id_n = ident, GenNumber = 0, LastUpdateTs = now, WaitForGenUpdateTs = now,
      Status = NODE_STATUS_DOWN, Value = Some Map.empty,
      QuorumMember = QuorumMember_u (peerUpdate peers ident),
      ClusterDomain = ClusterDomain_u (peerUpdate peers ident), Addr = []\<rparr>"

definition refreshed :: "NodeUpdate \<Rightarrow> NodeInfo \<Rightarrow> NodeInfo" where
  "refreshed u n =
     n\<lparr>QuorumMember := QuorumMember_u u, ClusterDomain := ClusterDomain_u u, Addr := Addr_u u\<rparr>"

definition indexNode ::
  "string \<Rightarrow> NodeId \<Rightarrow> (string \<rightharpoonup> nodeIdMap) option \<Rightarrow> (string \<rightharpoonup> nodeIdMap) option" where
  "indexNode failureDomain nodeId f =
     failureDomainsMap
       (updateClusterDomainsMap (zeroStore\<lparr>failureDomainsMap := f\<rparr>) failureDomain nodeId)"

definition indexNodes ::
  "(NodeId \<rightharpoonup> NodeUpdate) \<Rightarrow> NodeId list \<Rightarrow> (string \<rightharpoonup> nodeIdMap) option
     \<Rightarrow> (string \<rightharpoonup> nodeIdMap) option" where
  "indexNodes peers ks2 f =
     fold (\<lambda>ident. indexNode (ClusterDomain_u (peerUpdate peers ident)) ident) ks2 f"

definition inIndex :: "(string \<rightharpoonup> nodeIdMap) option \<Rightarrow> string \<Rightarrow> NodeId \<Rightarrow> bool" where
  "inIndex f d i \<longleftrightarrow>
     (case f of
        None \<Rightarrow> False
      | Some m \<Rightarrow> (case m d of None \<Rightarrow> False | Some nodeIdList \<Rightarrow> nodeIdList i \<noteq> None))"

definition countStep ::
  "(NodeId \<rightharpoonup> NodeUpdate) \<Rightarrow> NodeId \<Rightarrow> ClusterDomainsQuorumMembersMap
     \<Rightarrow> ClusterDomainsQuorumMembersMap" where
  "countStep peers ident q =
     (let update = peerUpdate peers ident
      in if QuorumMember_u update
         then q(ClusterDomain_u update \<mapsto>
                  (case q (ClusterDomain_u update) of None \<Rightarrow> 0 | Some c \<Rightarrow> c) + 1)
         else q)"

text \<open>The number of quorum members of \<open>peers\<close> in the domain \<open>d\<close>, over the ids \<open>ks2\<close>.\<close>

definition quorumMembersIn :: "(NodeId \<rightharpoonup> NodeUpdate) \<Rightarrow> NodeId list \<Rightarrow> string \<Rightarrow> nat" where
  "quorumMembersIn peers ks2 d =
     length (filter (\<lambda>ident. QuorumMember_u (peerUpdate peers ident)
                              \<and> ClusterDomain_u (peerUpdate peers ident) = d) ks2)"

subsection \<open>Properties of states named by the claims\<close>

text \<open>\<open>inBucket s d i\<close>: the node \<open>i\<close> is in the bucket of the domain \<open>d\<close>.\<close>

definition inBucket :: "GossipStoreImpl \<Rightarrow> string \<Rightarrow> NodeId \<Rightarrow> bool" where
  "inBucket s d i \<longleftrightarrow>
     (case getNodesFromClusterDomain s d of None \<Rightarrow> False | Some nodeIdList \<Rightarrow> nodeIdList i \<noteq> None)"

definition uniqueBuckets :: "GossipStoreImpl \<Rightarrow> bool" where
  "uniqueBuckets s \<longleftrightarrow> (\<forall>d d' i. inBucket s d i \<and> inBucket s d' i \<longrightarrow> d = d')"

text \<open>
  \<open>stamped now m m'\<close>: every entry of \<open>m'\<close> that differs from the one in \<open>m\<close> carries
  \<open>now\<close> as its \<open>LastUpdateTs\<close>.
\<close>

definition stamped :: "Time \<Rightarrow> NodeInfoMap \<Rightarrow> NodeInfoMap \<Rightarrow> bool" where
  "stamped now m m' \<longleftrightarrow>
     (\<forall>i. m' i = m i \<or> (case m' i of None \<Rightarrow> False | Some n \<Rightarrow> LastUpdateTs n = now))"

text \<open>The self entry is there and its \<open>Value\<close> map is not nil.\<close>

definition selfWritable :: "GossipStoreImpl \<Rightarrow> bool" where
  "selfWritable s \<longleftrightarrow>
     (case nodeMap s (id_s s) of None \<Rightarrow> False | Some n \<Rightarrow> Value n \<noteq> None)"

text \<open>The zero length of a possibly nil \<open>Value\<close> map: \<open>len(nodeInfo.Value) == 0\<close>.\<close>

definition lenIsZero :: "StoreMap option \<Rightarrow> bool" where
  "lenIsZero v \<longleftrightarrow> (case v of None \<Rightarrow> True | Some vm \<Rightarrow> vm = Map.empty)"

definition hasKey :: "StoreMap option \<Rightarrow> StoreKey \<Rightarrow> bool" where
  "hasKey v key \<longleftrightarrow> (case v of None \<Rightarrow> False | Some vm \<Rightarrow> vm key \<noteq> None)"

subsection \<open>Stores and inputs of the scenarios\<close>

definition storeA :: GossipStoreImpl where
  "storeA = NewGossipStore ''A'' ''v1'' ''C'' ''d1'' 1"

definition storeABup :: GossipStoreImpl where
  "storeABup = AddNode storeA ''B'' NODE_STATUS_UP True ''d1'' 2"

definition storeAB :: GossipStoreImpl where
  "storeAB = AddNode storeA ''B'' NODE_STATUS_DOWN True ''d1'' 2"

definition remoteB :: NodeInfo where
  "remoteB =
     \<lparr>Id_n = ''B'', GenNumber = 1, LastUpdateTs = 3, WaitForGenUpdateTs = 0,
      Status = NODE_STATUS_UP, Value = Some [''k'' \<mapsto> IntValue 7], QuorumMember = False,
      ClusterDomain = ''d1'', Addr = []\<rparr>"

text \<open>A peer that is up and whose gossiped entry arrived with a nil \<open>Value\<close> map.\<close>

definition storeNilValue :: GossipStoreImpl where
  "storeNilValue =
     Update storeABup [''B'' \<mapsto> remoteB\<lparr>Value := None\<rparr>] [''B'']"

text \<open>Peer maps: only B; only A, in \<open>d1\<close> and in \<open>d2\<close>; A and C (scenario S4).\<close>

definition peersB :: "NodeId \<rightharpoonup> NodeUpdate" where
  "peersB = [''B'' \<mapsto> \<lparr>Addr_u = ''b:1'', QuorumMember_u = True, ClusterDomain_u = ''d2''\<rparr>]"

definition peersA1 :: "NodeId \<rightharpoonup> NodeUpdate" where
  "peersA1 = [''A'' \<mapsto> \<lparr>Addr_u = ''a:1'', QuorumMember_u = True, ClusterDomain_u = ''d1''\<rparr>]"

definition peersA2 :: "NodeId \<rightharpoonup> NodeUpdate" where
  "peersA2 = [''A'' \<mapsto> \<lparr>Addr_u = ''a:1'', QuorumMember_u = True, ClusterDomain_u = ''d2''\<rparr>]"

definition peersAC :: "NodeId \<rightharpoonup> NodeUpdate" where
  "peersAC = [''A'' \<mapsto> \<lparr>Addr_u = ''a:1'', QuorumMember_u = True, ClusterDomain_u = ''d1''\<rparr>,
              ''C'' \<mapsto> \<lparr>Addr_u = ''c:1'', QuorumMember_u = True, ClusterDomain_u = ''d2''\<rparr>]"

text \<open>
  A is indexed under \<open>d1\<close> by a reconciliation and then moved to \<open>d2\<close> by \<open>AddNode\<close>;
  A removes its own entry and the next \<open>updateSelfTs\<close> writes it back.
\<close>

definition storeStale :: GossipStoreImpl where
  "storeStale =
     AddNode (fst (updateCluster storeA peersA1 [''A''] [''A''] [''A''] 2))
       ''A'' NODE_STATUS_UP True ''d2'' 3"

definition storeRevived :: GossipStoreImpl where
  "storeRevived = updateSelfTs (snd (RemoveNode storeA ''A'')) 2"

section \<open>The merge engine: \<open>Update\<close>\<close>

lemma updateStep_id_s [simp]: "id_s (updateStep diff i s) = id_s s"
  by (simp add: updateStep_def split: option.splits)

lemma updateStep_frame: "updateStep diff i s = s\<lparr>nodeMap := nodeMap (updateStep diff i s)\<rparr>"
  by (simp add: updateStep_def split: option.splits)

lemma updateStep_other: "j \<noteq> i \<Longrightarrow> nodeMap (updateStep diff i s) j = nodeMap s j"
  by (simp add: updateStep_def split: option.splits)

lemma updateStep_at:
  "nodeMap (updateStep diff i s) i =
     (case diff i of
        None \<Rightarrow> nodeMap s i
      | Some remote \<Rightarrow>
          if i = id_s s then nodeMap s i
          else (case nodeMap s i of
                  None \<Rightarrow> None
                | Some local \<Rightarrow>
                    if \<not> statusValid (Status local) \<or> LastUpdateTs local < LastUpdateTs remote
                    then Some (remote\<lparr>Status := Status local\<rparr>)
                    else Some local))"
  by (simp add: updateStep_def split: option.splits)

lemma fold_updateStep_id_s [simp]: "id_s (fold (updateStep diff) ds s) = id_s s"
  by (induction ds arbitrary: s) simp_all

lemma fold_updateStep_frame:
  "fold (updateStep diff) ds s = s\<lparr>nodeMap := nodeMap (fold (updateStep diff) ds s)\<rparr>"
proof (induction ds arbitrary: s)
  case Nil
  show ?case by simp
next
  case (Cons a ds)
  have "fold (updateStep diff) (a # ds) s = fold (updateStep diff) ds (updateStep diff a s)"
    by simp
  also have "\<dots> = (updateStep diff a s)\<lparr>nodeMap := nodeMap (fold (updateStep diff) ds (updateStep diff a s))\<rparr>"
    by (rule Cons.IH)
  also have "\<dots> = s\<lparr>nodeMap := nodeMap (fold (updateStep diff) ds (updateStep diff a s))\<rparr>"
    by (subst updateStep_frame) simp
  finally show ?case by simp
qed

lemma fold_updateStep_notin:
  "i \<notin> set ds \<Longrightarrow> nodeMap (fold (updateStep diff) ds s) i = nodeMap s i"
  by (induction ds arbitrary: s) (simp_all add: updateStep_other)

lemma fold_updateStep_in:
  "distinct ds \<Longrightarrow> i \<in> set ds \<Longrightarrow>
     nodeMap (fold (updateStep diff) ds s) i = nodeMap (updateStep diff i s) i"
proof (induction ds arbitrary: s)
  case Nil
  then show ?case by simp
next
  case (Cons a ds)
  show ?case
  proof (cases "i = a")
    case True
    with Cons.prems show ?thesis by (simp add: fold_updateStep_notin)
  next
    case False
    with Cons.prems have "i \<in> set ds" "distinct ds" by simp_all
    then have "nodeMap (fold (updateStep diff) ds (updateStep diff a s)) i
                 = nodeMap (updateStep diff i (updateStep diff a s)) i"
      by (rule Cons.IH[rotated])
    also have "\<dots> = nodeMap (updateStep diff i s) i"
      by (simp only: updateStep_at updateStep_other[OF False] updateStep_id_s)
    finally show ?thesis by simp
  qed
qed


section \<open>Reading a key of every node: \<open>GetStoreKeyValue\<close>\<close>

lemma fold_skv_notin:
  "i \<notin> set ks \<Longrightarrow> fold (storeKeyValueStep s key) ks acc i = acc i"
  by (induction ks arbitrary: acc)
     (auto simp: storeKeyValueStep_def Let_def split: option.splits)

lemma fold_skv_in:
  "distinct ks \<Longrightarrow> i \<in> set ks \<Longrightarrow>
     fold (storeKeyValueStep s key) ks acc i = storeKeyValueStep s key i acc i"
proof (induction ks arbitrary: acc)
  case Nil
  then show ?case by simp
next
  case (Cons a ks)
  show ?case
  proof (cases "i = a")
    case True
    with Cons.prems show ?thesis by (simp add: fold_skv_notin)
  next
    case False
    with Cons.prems have "i \<in> set ks" "distinct ks" by simp_all
    then have "fold (storeKeyValueStep s key) ks (storeKeyValueStep s key a acc) i
                 = storeKeyValueStep s key i (storeKeyValueStep s key a acc) i"
      by (rule Cons.IH[rotated])
    also have "\<dots> = storeKeyValueStep s key i acc i"
      using False by (auto simp: storeKeyValueStep_def Let_def split: option.splits)
    finally show ?thesis by simp
  qed
qed

section \<open>The cluster reconciler: what \<open>updateCluster\<close> computes\<close>

lemma clearOtherDomainsStep_at:
  "clearOtherDomainsStep d i fd m fd' =
     (if fd' = fd then clearOtherDomains d i m fd else m fd')"
  by (simp add: clearOtherDomainsStep_def clearOtherDomains_def split: option.splits)

lemma clearOtherDomains_twice:
  "clearOtherDomains d i (clearOtherDomainsStep d i fd m) fd' = clearOtherDomains d i m fd'"
  by (auto simp add: clearOtherDomainsStep_def clearOtherDomains_def split: option.splits)

lemma fold_clearOtherDomainsStep:
  "fold (clearOtherDomainsStep d i) fds m =
     (\<lambda>fd. if fd \<in> set fds then clearOtherDomains d i m fd else m fd)"
proof (induction fds arbitrary: m)
  case Nil
  show ?case by simp
next
  case (Cons a fds)
  have "fold (clearOtherDomainsStep d i) (a # fds) m
          = fold (clearOtherDomainsStep d i) fds (clearOtherDomainsStep d i a m)"
    by simp
  also have "\<dots> = (\<lambda>fd. if fd \<in> set fds
                        then clearOtherDomains d i (clearOtherDomainsStep d i a m) fd
                        else clearOtherDomainsStep d i a m fd)"
    by (rule Cons.IH)
  also have "\<dots> = (\<lambda>fd. if fd \<in> set (a # fds) then clearOtherDomains d i m fd else m fd)"
    by (auto simp add: fun_eq_iff clearOtherDomains_twice clearOtherDomainsStep_at)
  finally show ?case .
qed

lemma clearOtherDomainsLoop_eq:
  "ranges fds m \<Longrightarrow> clearOtherDomainsLoop fds d i m = clearOtherDomains d i m"
  by (auto simp add: clearOtherDomainsLoop_def fold_clearOtherDomainsStep ranges_def fun_eq_iff
        clearOtherDomains_def split: option.splits)

lemma snd_removeNodeUnlocked:
  "snd (removeNodeUnlocked st i) = st\<lparr>nodeMap := (nodeMap st)(i := None)\<rparr>"
  by (cases "nodeMap st i") (simp_all add: removeNodeUnlocked_def fun_upd_idem)

lemma removeNodes_Cons:
  "removeNodes (a # rs) st = removeNodes rs (snd (removeNodeUnlocked st a))"
  by (simp add: removeNodes_def)

lemma removeNodes_eq:
  "removeNodes rs st = st\<lparr>nodeMap := (\<lambda>i. if i \<in> set rs then None else nodeMap st i)\<rparr>"
proof (induction rs arbitrary: st)
  case Nil
  show ?case by (simp add: removeNodes_def)
next
  case (Cons a rs)
  show ?case
    by (simp add: removeNodes_Cons Cons.IH snd_removeNodeUnlocked fun_eq_iff)
qed

lemma addNodeUnlocked_absent:
  "nodeMap st i = None \<or> nodeMap st i = Some (addedNode peers now i) \<Longrightarrow>
     addNodeUnlocked st i NODE_STATUS_DOWN
        (QuorumMember_u (peerUpdate peers i))
        (ClusterDomain_u (peerUpdate peers i)) now
     = st\<lparr>nodeMap := (nodeMap st)(i \<mapsto> addedNode peers now i)\<rparr>"
  by (auto simp add: addNodeUnlocked_def addedNode_def Let_def)

lemma addNodes_Cons:
  "addNodes peers now (a # as) st =
     addNodes peers now as
       (addNodeUnlocked st a NODE_STATUS_DOWN
          (QuorumMember_u (peerUpdate peers a))
          (ClusterDomain_u (peerUpdate peers a)) now)"
  by (simp add: addNodes_def Let_def)

lemma addNodes_eq:
  "\<forall>i \<in> set as. nodeMap st i = None \<or> nodeMap st i = Some (addedNode peers now i) \<Longrightarrow>
   addNodes peers now as st
     = st\<lparr>nodeMap := (\<lambda>i. if i \<in> set as then Some (addedNode peers now i) else nodeMap st i)\<rparr>"
proof (induction as arbitrary: st)
  case Nil
  show ?case by (simp add: addNodes_def)
next
  case (Cons a as)
  let ?st' = "st\<lparr>nodeMap := (nodeMap st)(a \<mapsto> addedNode peers now a)\<rparr>"
  from Cons.prems have "nodeMap st a = None \<or> nodeMap st a = Some (addedNode peers now a)"
    by simp
  then have step: "addNodeUnlocked st a NODE_STATUS_DOWN
        (QuorumMember_u (peerUpdate peers a))
        (ClusterDomain_u (peerUpdate peers a)) now = ?st'"
    by (rule addNodeUnlocked_absent)
  have inv: "\<forall>i \<in> set as. nodeMap ?st' i = None \<or> nodeMap ?st' i = Some (addedNode peers now i)"
    using Cons.prems by simp
  show ?case
    by (simp add: addNodes_Cons step Cons.IH[OF inv] fun_eq_iff)
qed

lemma reconcileNodes_eq:
  "reconcileNodes s peers ks ps now =
     s\<lparr>clusterSize := length ps,
       nodeMap := (\<lambda>i. if i \<in> set ps \<and> nodeMap s i = None then Some (addedNode peers now i)
                       else if i \<in> set ks \<and> peers i = None then None
                       else nodeMap s i)\<rparr>"
  by (simp add: reconcileNodes_def Let_def removeNodes_eq addNodes_eq fun_eq_iff)

lemma reconcileNodes_ranges:
  "ranges ks (nodeMap s) \<Longrightarrow> ranges ps peers \<Longrightarrow>
   nodeMap (reconcileNodes s peers ks ps now) =
     (\<lambda>i. case peers i of
             None \<Rightarrow> None
           | Some u \<Rightarrow> (case nodeMap s i of
                          None \<Rightarrow> Some (addedNode peers now i)
                        | Some n \<Rightarrow> Some n))"
  by (auto simp add: reconcileNodes_eq ranges_def fun_eq_iff split: option.splits)


lemma updateClusterDomainsMap_eq:
  "updateClusterDomainsMap s d i = s\<lparr>failureDomainsMap := indexNode d i (failureDomainsMap s)\<rparr>"
  by (simp add: updateClusterDomainsMap_def indexNode_def Let_def zeroStore_def
           split: option.splits)

lemma inIndex_indexNode:
  "inIndex (indexNode d i f) d' j \<longleftrightarrow> (if j = i then d' = d else inIndex f d' j)"
  by (auto simp add: indexNode_def updateClusterDomainsMap_def clearOtherDomains_def inIndex_def
        Let_def zeroStore_def split: option.splits if_splits)

lemma indexNode_idem:
  assumes "inIndex f d i" and "\<forall>d'. d' \<noteq> d \<longrightarrow> \<not> inIndex f d' i"
  shows "indexNode d i f = f"
proof -
  from assms(1) obtain m l where f: "f = Some m" and md: "m d = Some l" and li: "l i \<noteq> None"
    by (auto simp: inIndex_def split: option.splits)
  have "clearOtherDomains d i m = m"
  proof
    fix fd
    show "clearOtherDomains d i m fd = m fd"
    proof (cases "fd = d")
      case True
      then show ?thesis by (simp add: clearOtherDomains_def)
    next
      case False
      with assms(2) have "\<not> inIndex f fd i" by simp
      with f False show ?thesis
        by (simp add: clearOtherDomains_def inIndex_def split: option.splits)
    qed
  qed
  then show ?thesis
    using f md li
    by (auto simp add: indexNode_def updateClusterDomainsMap_def Let_def zeroStore_def)
qed

lemma refreshNode_present:
  "nodeMap st i = Some n0 \<Longrightarrow> peers i = Some u \<Longrightarrow>
   refreshNode peers i (st, q) =
     (st\<lparr>nodeMap := (nodeMap st)(i \<mapsto> refreshed u n0),
         failureDomainsMap := indexNode (ClusterDomain_u u) i (failureDomainsMap st)\<rparr>,
      countStep peers i q)"
  by (simp add: refreshNode_def Let_def peerUpdate_def refreshed_def countStep_def
        updateClusterDomainsMap_eq)

lemma fold_refreshNode:
  "\<forall>i \<in> set ks2. nodeMap st i \<noteq> None \<and> peers i \<noteq> None \<Longrightarrow>
   fold (refreshNode peers) ks2 (st, q) =
     (st\<lparr>nodeMap := (\<lambda>i. if i \<in> set ks2
                           then map_option (refreshed (peerUpdate peers i)) (nodeMap st i)
                           else nodeMap st i),
         failureDomainsMap := indexNodes peers ks2 (failureDomainsMap st)\<rparr>,
      fold (countStep peers) ks2 q)"
proof (induction ks2 arbitrary: st q)
  case Nil
  show ?case by (simp add: indexNodes_def)
next
  case (Cons a ks2)
  from Cons.prems obtain n0 u where n0: "nodeMap st a = Some n0" and u: "peers a = Some u"
    by auto
  let ?st' = "st\<lparr>nodeMap := (nodeMap st)(a \<mapsto> refreshed u n0),
         failureDomainsMap := indexNode (ClusterDomain_u u) a (failureDomainsMap st)\<rparr>"
  have inv: "\<forall>i \<in> set ks2. nodeMap ?st' i \<noteq> None \<and> peers i \<noteq> None"
    using Cons.prems by simp
  have "fold (refreshNode peers) (a # ks2) (st, q) =
          fold (refreshNode peers) ks2 (?st', countStep peers a q)"
    using n0 u by (simp add: refreshNode_present)
  also have "\<dots> = (?st'\<lparr>nodeMap := (\<lambda>i. if i \<in> set ks2
                           then map_option (refreshed (peerUpdate peers i)) (nodeMap ?st' i)
                           else nodeMap ?st' i),
         failureDomainsMap := indexNodes peers ks2 (failureDomainsMap ?st')\<rparr>,
      fold (countStep peers) ks2 (countStep peers a q))"
    by (rule Cons.IH[OF inv])
  also have "\<dots> = (st\<lparr>nodeMap := (\<lambda>i. if i \<in> set (a # ks2)
                           then map_option (refreshed (peerUpdate peers i)) (nodeMap st i)
                           else nodeMap st i),
         failureDomainsMap := indexNodes peers (a # ks2) (failureDomainsMap st)\<rparr>,
      fold (countStep peers) (a # ks2) q)"
    using n0 u by (simp add: fun_eq_iff indexNodes_def peerUpdate_def refreshed_def)
  finally show ?case .
qed

lemma inIndex_indexNodes:
  "inIndex (indexNodes peers ks2 f) d j \<longleftrightarrow>
     (if j \<in> set ks2 then d = ClusterDomain_u (peerUpdate peers j) else inIndex f d j)"
proof (induction ks2 arbitrary: f)
  case Nil
  show ?case by (simp add: indexNodes_def)
next
  case (Cons a ks2)
  have "indexNodes peers (a # ks2) f =
          indexNodes peers ks2 (indexNode (ClusterDomain_u (peerUpdate peers a)) a f)"
    by (simp add: indexNodes_def)
  then show ?case
    by (simp add: Cons.IH inIndex_indexNode)
qed

lemma indexNodes_idem:
  "\<forall>j \<in> set ks2. \<forall>d. inIndex f d j \<longleftrightarrow> d = ClusterDomain_u (peerUpdate peers j) \<Longrightarrow>
   indexNodes peers ks2 f = f"
proof (induction ks2)
  case Nil
  show ?case by (simp add: indexNodes_def)
next
  case (Cons a ks2)
  have "indexNode (ClusterDomain_u (peerUpdate peers a)) a f = f"
    using Cons.prems by (intro indexNode_idem) simp_all
  moreover have "indexNodes peers (a # ks2) f =
          indexNodes peers ks2 (indexNode (ClusterDomain_u (peerUpdate peers a)) a f)"
    by (simp add: indexNodes_def)
  ultimately show ?case using Cons by simp
qed

lemma fold_countStep:
  "fold (countStep peers) ks2 q d =
     (case q d of
        None \<Rightarrow> if quorumMembersIn peers ks2 d = 0 then None
                else Some (quorumMembersIn peers ks2 d)
      | Some c \<Rightarrow> Some (c + quorumMembersIn peers ks2 d))"
proof (induction ks2 arbitrary: q)
  case Nil
  show ?case by (simp add: quorumMembersIn_def split: option.splits)
next
  case (Cons a ks2)
  show ?case
    by (simp add: Cons.IH) (auto simp add: countStep_def quorumMembersIn_def Let_def split: option.splits)
qed

lemma quorumMembersIn_order:
  "distinct ks \<Longrightarrow> distinct ks' \<Longrightarrow> set ks = set ks' \<Longrightarrow>
     quorumMembersIn peers ks d = quorumMembersIn peers ks' d"
  by (simp add: quorumMembersIn_def distinct_length_filter)

lemma updateCluster_eq:
  assumes "clusterOrders s peers ks ps ks2 now"
  shows "updateCluster s peers ks ps ks2 now =
     (s\<lparr>clusterSize := length ps,
        nodeMap := (\<lambda>i. case peers i of
                           None \<Rightarrow> None
                         | Some u \<Rightarrow> Some (refreshed u (case nodeMap s i of
                                                         None \<Rightarrow> addedNode peers now i
                                                       | Some n \<Rightarrow> n))),
        failureDomainsMap := indexNodes peers ks2 (failureDomainsMap s)\<rparr>,
      (\<lambda>d. if quorumMembersIn peers ks2 d = 0 then None
            else Some (quorumMembersIn peers ks2 d)))"
proof -
  let ?R = "reconcileNodes s peers ks ps now"
  let ?G = "\<lambda>i. case peers i of
             None \<Rightarrow> None
           | Some u \<Rightarrow> (case nodeMap s i of
                          None \<Rightarrow> Some (addedNode peers now i)
                        | Some n \<Rightarrow> Some n)"
  from assms have ks: "ranges ks (nodeMap s)" and ps: "ranges ps peers"
    and ks2: "ranges ks2 (nodeMap ?R)"
    by (simp_all add: clusterOrders_def)
  have nmR: "nodeMap ?R = ?G"
    using ks ps by (rule reconcileNodes_ranges)
  have Req: "?R = s\<lparr>clusterSize := length ps, nodeMap := ?G\<rparr>"
    using nmR by (simp add: reconcileNodes_eq)
  have domR: "dom (nodeMap ?R) = dom peers"
    by (auto simp add: nmR split: option.splits)
  with ks2 have set2: "set ks2 = dom peers" by (simp add: ranges_def)
  then have pre: "\<forall>i \<in> set ks2. nodeMap ?R i \<noteq> None \<and> peers i \<noteq> None"
    using domR by auto
  have nm': "(\<lambda>i. if i \<in> set ks2
                 then map_option (refreshed (peerUpdate peers i)) (nodeMap ?R i)
                 else nodeMap ?R i)
             = (\<lambda>i. case peers i of
                           None \<Rightarrow> None
                         | Some u \<Rightarrow> Some (refreshed u (case nodeMap s i of
                                                         None \<Rightarrow> addedNode peers now i
                                                       | Some n \<Rightarrow> n)))"
    by (auto simp add: nmR fun_eq_iff set2 peerUpdate_def split: option.splits)
  have cnt: "fold (countStep peers) ks2 Map.empty =
      (\<lambda>d. if quorumMembersIn peers ks2 d = 0 then None
            else Some (quorumMembersIn peers ks2 d))"
    by (simp add: fun_eq_iff fold_countStep)
  have "updateCluster s peers ks ps ks2 now =
     (?R\<lparr>nodeMap := (\<lambda>i. if i \<in> set ks2
                           then map_option (refreshed (peerUpdate peers i)) (nodeMap ?R i)
                           else nodeMap ?R i),
         failureDomainsMap := indexNodes peers ks2 (failureDomainsMap ?R)\<rparr>,
      fold (countStep peers) ks2 Map.empty)"
    unfolding updateCluster_def by (rule fold_refreshNode[OF pre])
  also have "\<dots> = (?R\<lparr>nodeMap := (\<lambda>i. case peers i of
                           None \<Rightarrow> None
                         | Some u \<Rightarrow> Some (refreshed u (case nodeMap s i of
                                                         None \<Rightarrow> addedNode peers now i
                                                       | Some n \<Rightarrow> n))),
         failureDomainsMap := indexNodes peers ks2 (failureDomainsMap ?R)\<rparr>,
       (\<lambda>d. if quorumMembersIn peers ks2 d = 0 then None
            else Some (quorumMembersIn peers ks2 d)))"
    by (simp only: nm' cnt)
  also have "\<dots> = (s\<lparr>clusterSize := length ps,
        nodeMap := (\<lambda>i. case peers i of
                           None \<Rightarrow> None
                         | Some u \<Rightarrow> Some (refreshed u (case nodeMap s i of
                                                         None \<Rightarrow> addedNode peers now i
                                                       | Some n \<Rightarrow> n))),
        failureDomainsMap := indexNodes peers ks2 (failureDomainsMap s)\<rparr>,
      (\<lambda>d. if quorumMembersIn peers ks2 d = 0 then None
            else Some (quorumMembersIn peers ks2 d)))"
    by (subst (1 2) Req) simp
  finally show ?thesis .
qed

lemma clusterOrders_set:
  assumes "clusterOrders s peers ks ps ks2 now"
  shows "distinct ks2 \<and> set ks2 = dom peers \<and> distinct ps \<and> set ps = dom peers"
proof -
  from assms have ks: "ranges ks (nodeMap s)" and ps: "ranges ps peers"
    and ks2: "ranges ks2 (nodeMap (reconcileNodes s peers ks ps now))"
    by (simp_all add: clusterOrders_def)
  have "dom (nodeMap (reconcileNodes s peers ks ps now)) = dom peers"
    by (auto simp add: reconcileNodes_ranges[OF ks ps] split: option.splits)
  with ks2 ps show ?thesis by (simp add: ranges_def)
qed

lemma fold_localCopy:
  "fold (\<lambda>key localCopy. case nodeMap s key of
                              None \<Rightarrow> localCopy
                            | Some v \<Rightarrow> localCopy(key \<mapsto> v)) ks acc
     = (\<lambda>i. if i \<in> set ks then (case nodeMap s i of None \<Rightarrow> acc i | Some v \<Rightarrow> Some v)
             else acc i)"
  by (induction ks arbitrary: acc) (auto simp add: fun_eq_iff split: option.splits)

lemma getLocalState_eq: "ranges ks (nodeMap s) \<Longrightarrow> getLocalState s ks = nodeMap s"
  by (auto simp add: getLocalState_def fold_localCopy ranges_def fun_eq_iff split: option.splits)

lemma updateCluster_nodeMap:
  "clusterOrders s peers ks ps ks2 now \<Longrightarrow>
   nodeMap (fst (updateCluster s peers ks ps ks2 now)) =
     (\<lambda>i. case peers i of
             None \<Rightarrow> None
           | Some u \<Rightarrow> Some (refreshed u (case nodeMap s i of
                                           None \<Rightarrow> addedNode peers now i
                                         | Some n \<Rightarrow> n)))"
  by (simp add: updateCluster_eq)

lemma updateCluster_dom:
  "clusterOrders s peers ks ps ks2 now \<Longrightarrow>
   dom (nodeMap (fst (updateCluster s peers ks ps ks2 now))) = dom peers"
  by (auto simp add: updateCluster_nodeMap split: option.splits)

lemma reconcileNodes_dom:
  "ranges ks (nodeMap s) \<Longrightarrow> ranges ps peers \<Longrightarrow>
   dom (nodeMap (reconcileNodes s peers ks ps now)) = dom peers"
  by (auto simp add: reconcileNodes_ranges split: option.splits)

lemma clusterOrdersI:
  "ranges ks (nodeMap s) \<Longrightarrow> ranges ps peers \<Longrightarrow> ranges ks2 peers \<Longrightarrow>
   clusterOrders s peers ks ps ks2 now"
  by (simp add: clusterOrders_def ranges_def reconcileNodes_dom[unfolded ranges_def])

lemma stamped_refl: "stamped now m m"
  by (simp add: stamped_def)

lemma stamped_upd: "LastUpdateTs n = now \<Longrightarrow> stamped now m (m(i \<mapsto> n))"
  by (simp add: stamped_def)

section \<open>Invariants of the reachable stores\<close>

lemma inBucket_inIndex: "inBucket s d i = inIndex (failureDomainsMap s) d i"
  by (simp add: inBucket_def getNodesFromClusterDomain_def inIndex_def split: option.splits)

lemma uniqueBuckets_same:
  "failureDomainsMap s' = failureDomainsMap s \<Longrightarrow> uniqueBuckets s \<Longrightarrow> uniqueBuckets s'"
  by (simp add: uniqueBuckets_def inBucket_inIndex)

lemma uniqueBuckets_indexNode:
  "uniqueBuckets s \<Longrightarrow> failureDomainsMap s' = indexNode d i (failureDomainsMap s) \<Longrightarrow>
   uniqueBuckets s'"
  unfolding uniqueBuckets_def inBucket_inIndex
  by (simp add: inIndex_indexNode split: if_splits) blast

lemma uniqueBuckets_indexNodes:
  "uniqueBuckets s \<Longrightarrow> failureDomainsMap s' = indexNodes peers ks2 (failureDomainsMap s) \<Longrightarrow>
   uniqueBuckets s'"
  unfolding uniqueBuckets_def inBucket_inIndex
  by (simp add: inIndex_indexNodes split: if_splits) blast

lemma Update_failureDomainsMap: "failureDomainsMap (Update s diff ds) = failureDomainsMap s"
proof -
  have "Update s diff ds = s\<lparr>nodeMap := nodeMap (Update s diff ds)\<rparr>"
    unfolding Update_def by (rule fold_updateStep_frame)
  then have "failureDomainsMap (Update s diff ds)
               = failureDomainsMap (s\<lparr>nodeMap := nodeMap (Update s diff ds)\<rparr>)"
    by simp
  then show ?thesis by simp
qed

lemma uniqueBuckets_step:
  assumes "uniqueBuckets s" and "opOrders s op" and "exec s op = Inr s'"
  shows "uniqueBuckets s'"
proof (cases op)
  case (OpUpdateSelf key val now)
  with assms(3) have "failureDomainsMap s' = failureDomainsMap s"
    by (auto simp add: UpdateSelf_def Let_def split: option.splits)
  then show ?thesis using assms(1) by (rule uniqueBuckets_same)
next
  case (OpUpdate diff ds)
  with assms(3) have "failureDomainsMap s' = failureDomainsMap s"
    by (auto simp add: Update_failureDomainsMap)
  then show ?thesis using assms(1) by (rule uniqueBuckets_same)
next
  case (OpUpdateCluster peers ks ps ks2 now)
  with assms(2) have co: "clusterOrders s peers ks ps ks2 now" by simp
  from OpUpdateCluster assms(3)
  have "failureDomainsMap s' = indexNodes peers ks2 (failureDomainsMap s)"
    by (auto simp add: updateCluster_eq[OF co])
  with assms(1) show ?thesis by (rule uniqueBuckets_indexNodes)
next
  case (OpUpdateClusterDomainsMap d i)
  with assms(3) have "failureDomainsMap s' = indexNode d i (failureDomainsMap s)"
    by (auto simp add: updateClusterDomainsMap_eq)
  with assms(1) show ?thesis by (rule uniqueBuckets_indexNode)
qed (use assms(1,3) in \<open>auto simp add: InitStore_def UpdateLostQuorumTs_def updateSelfTs_def
       updateSelfClusterDomain_def UpdateSelfStatus_def UpdateNodeStatus_def AddNode_def
       addNodeUnlocked_def RemoveNode_def removeNodeUnlocked_def Let_def
       split: option.splits intro: uniqueBuckets_same[rotated]\<close>)

lemma reach_uniqueBuckets: "reach G s \<Longrightarrow> uniqueBuckets s"
proof (induction rule: reach.induct)
  case (new ident version clusterId selfClusterDomain now)
  show ?case
    by (simp add: uniqueBuckets_def inBucket_inIndex inIndex_def NewGossipStore_def
          InitStore_def zeroStore_def)
next
  case (step s op s')
  then show ?case using uniqueBuckets_step by blast
qed

lemma Update_self:
  assumes "ranges ds diff"
  shows "nodeMap (Update s diff ds) (id_s s) = nodeMap s (id_s s)"
    and "id_s (Update s diff ds) = id_s s"
proof -
  show "id_s (Update s diff ds) = id_s s" by (simp add: Update_def)
  show "nodeMap (Update s diff ds) (id_s s) = nodeMap s (id_s s)"
  proof (cases "id_s s \<in> set ds")
    case True
    from assms have "distinct ds" by (simp add: ranges_def)
    then have "nodeMap (Update s diff ds) (id_s s) = nodeMap (updateStep diff (id_s s) s) (id_s s)"
      unfolding Update_def using True by (rule fold_updateStep_in)
    then show ?thesis by (simp add: updateStep_at split: option.splits)
  next
    case False
    then show ?thesis unfolding Update_def by (rule fold_updateStep_notin)
  qed
qed

lemma selfWritable_step:
  assumes "selfWritable s" and "keepsSelf s op" and "opOrders s op" and "exec s op = Inr s'"
  shows "selfWritable s'"
proof (cases op)
  case (OpUpdate diff ds)
  with assms(3) have "ranges ds diff" by simp
  from Update_self[OF this, of s] OpUpdate assms(1,4) show ?thesis
    by (auto simp add: selfWritable_def)
next
  case (OpUpdateCluster peers ks ps ks2 now)
  with assms(3) have co: "clusterOrders s peers ks ps ks2 now" by simp
  from OpUpdateCluster assms(2) obtain u where u: "peers (id_s s) = Some u"
    by (auto simp add: keepsSelf_def)
  from OpUpdateCluster assms(4) have s': "s' = fst (updateCluster s peers ks ps ks2 now)"
    by simp
  have "id_s s' = id_s s" by (simp add: s' updateCluster_eq[OF co])
  moreover have "nodeMap s' (id_s s) =
      Some (refreshed u (case nodeMap s (id_s s) of None \<Rightarrow> addedNode peers now (id_s s)
                         | Some n \<Rightarrow> n))"
    by (simp add: s' updateCluster_nodeMap[OF co] u)
  ultimately show ?thesis using assms(1)
    by (auto simp add: selfWritable_def refreshed_def split: option.splits)
qed (use assms(1,2,4) in \<open>auto simp add: selfWritable_def keepsSelf_def InitStore_def
       UpdateLostQuorumTs_def updateSelfTs_def UpdateSelf_def lookupUnchecked_def
       updateSelfClusterDomain_def UpdateSelfStatus_def UpdateNodeStatus_def AddNode_def
       addNodeUnlocked_def RemoveNode_def removeNodeUnlocked_def updateClusterDomainsMap_eq
       Let_def split: option.splits if_splits\<close>)

lemma reach_keepsSelf_selfWritable: "reach keepsSelf s \<Longrightarrow> selfWritable s"
proof (induction rule: reach.induct)
  case (new ident version clusterId selfClusterDomain now)
  show ?case by (simp add: selfWritable_def NewGossipStore_def InitStore_def)
next
  case (step s op s')
  then show ?case using selfWritable_step by blast
qed

lemma updateCluster_inBucket:
  assumes "clusterOrders s peers ks ps ks2 now"
  shows "inBucket (fst (updateCluster s peers ks ps ks2 now)) d i \<longleftrightarrow>
           (if i \<in> dom peers then d = ClusterDomain_u (peerUpdate peers i) else inBucket s d i)"
  using clusterOrders_set[OF assms]
  by (simp add: inBucket_inIndex updateCluster_eq[OF assms] inIndex_indexNodes)

section \<open>Facts about the stores of the scenarios\<close>

lemmas scenario_defs = storeA_def storeAB_def storeABup_def remoteB_def storeNilValue_def NewGossipStore_def
  InitStore_def zeroStore_def AddNode_def addNodeUnlocked_def Update_def updateStep_def
  statusValid_def ranges_def

lemma ranges_storeABup: "ranges [''A'', ''B''] (nodeMap storeABup)"
  by (auto simp add: ranges_def scenario_defs split: if_splits)

lemma dom_peersAC: "dom peersAC = {''A'', ''C''}"
  by (auto simp: peersAC_def)

lemma clusterOrders_storeABup:
  "clusterOrders storeABup peersAC [''A'', ''B''] [''A'', ''C''] [''C'', ''A''] 3"
  by (rule clusterOrdersI[OF ranges_storeABup]) (auto simp add: ranges_def dom_peersAC)

lemma ranges_storeA: "ranges [''A''] (nodeMap storeA)"
  by (auto simp add: ranges_def scenario_defs split: if_splits)

lemma reach_storeA: "reach G storeA"
  unfolding storeA_def by (rule reach.new)

lemma clusterOrders_storeA_B: "clusterOrders storeA peersB [''A''] [''B''] [''B''] 2"
  by (rule clusterOrdersI[OF ranges_storeA]) (auto simp add: ranges_def peersB_def)

lemma clusterOrders_storeA_A1: "clusterOrders storeA peersA1 [''A''] [''A''] [''A''] 2"
  by (rule clusterOrdersI[OF ranges_storeA]) (auto simp add: ranges_def peersA1_def)

lemma clusterOrders_storeA_A2: "clusterOrders storeA peersA2 [''A''] [''A''] [''A''] 5"
  by (rule clusterOrdersI[OF ranges_storeA]) (auto simp add: ranges_def peersA2_def)

lemma reach_storeAB: "reach keepsSelf storeAB"
  by (rule reach.step[OF reach_storeA, where op = "OpAddNode ''B'' NODE_STATUS_DOWN True ''d1'' 2"])
     (simp_all add: keepsSelf_def storeAB_def)

lemma reach_storeStale: "reach anyOp storeStale"
proof -
  have "reach anyOp (fst (updateCluster storeA peersA1 [''A''] [''A''] [''A''] 2))"
    by (rule reach.step[OF reach_storeA,
          where op = "OpUpdateCluster peersA1 [''A''] [''A''] [''A''] 2"])
       (simp_all add: anyOp_def clusterOrders_storeA_A1)
  then show ?thesis
    by (rule reach.step[where op = "OpAddNode ''A'' NODE_STATUS_UP True ''d2'' 3"])
       (simp_all add: anyOp_def storeStale_def)
qed

lemma reach_storeRevived: "reach anyOp storeRevived"
proof -
  have "reach anyOp (snd (RemoveNode storeA ''A''))"
    by (rule reach.step[OF reach_storeA, where op = "OpRemoveNode ''A''"])
       (simp_all add: anyOp_def)
  then show ?thesis
    by (rule reach.step[where op = "OpUpdateSelfTs 2"])
       (simp_all add: anyOp_def storeRevived_def)
qed

lemma inBucket_storeStale: "inBucket storeStale ''d1'' ''A''"
proof -
  have "inBucket (fst (updateCluster storeA peersA1 [''A''] [''A''] [''A''] 2)) ''d1'' ''A''"
    unfolding updateCluster_inBucket[OF clusterOrders_storeA_A1]
    by (simp add: peersA1_def peerUpdate_def)
  then show ?thesis
    by (simp add: inBucket_inIndex storeStale_def AddNode_def addNodeUnlocked_def
          split: option.splits)
qed

lemma ClusterDomain_storeStale: "map_option ClusterDomain (nodeMap storeStale ''A'') = Some ''d2''"
  by (simp add: storeStale_def AddNode_def addNodeUnlocked_def split: option.splits)

section \<open>Claims about reading a key\<close>

text \<open>
  Claim C8, as amended. For every store, key \<open>key\<close> and visiting order of \<open>nodeMap\<close>,
  the map returned by \<open>GetStoreKeyValue\<close> has an entry for a node exactly when the
  node's status is valid, its \<open>Value\<close> map is not nil, and that map is empty or has
  \<open>key\<close>; the entry carries the node's id, generation number, timestamp and status
  and its value for \<open>key\<close> (the nil interface when the map is empty).
\<close>

theorem GetStoreKeyValue_entries:
  "ranges ks (nodeMap s) \<Longrightarrow>
   GetStoreKeyValue s key ks ident =
     (case nodeMap s ident of
        None \<Rightarrow> None
      | Some p \<Rightarrow>
          (case Value p of
             None \<Rightarrow> None
           | Some vm \<Rightarrow>
               if statusValid (Status p) \<and> (vm = Map.empty \<or> key \<in> dom vm)
               then Some \<lparr>Id_v = Id_n p, GenNumber_v = GenNumber p,
                          LastUpdateTs_v = LastUpdateTs p, Status_v = Status p,
                          Value_v = (case vm key of None \<Rightarrow> NilValue | Some v \<Rightarrow> v)\<rparr>
               else None))"
proof (cases "ident \<in> set ks")
  case True
  assume r: "ranges ks (nodeMap s)"
  then have "distinct ks" by (simp add: ranges_def)
  then have "GetStoreKeyValue s key ks ident = storeKeyValueStep s key ident Map.empty ident"
    unfolding GetStoreKeyValue_def using True by (rule fold_skv_in)
  then show ?thesis
    by (auto simp: storeKeyValueStep_def Let_def split: option.splits)
next
  case False
  assume r: "ranges ks (nodeMap s)"
  with False have "nodeMap s ident = None" by (auto simp: ranges_def)
  moreover have "GetStoreKeyValue s key ks ident = None"
    unfolding GetStoreKeyValue_def using False by (simp add: fold_skv_notin)
  ultimately show ?thesis by simp
qed

text \<open>
  Scenario S1: after \<open>UpdateSelf("k", "v")\<close> on the store of node A, the key \<open>k\<close> reads
  as \<open>v\<close> at A, with A's status.
\<close>

theorem GetStoreKeyValue_entries_witness:
  "ranges [''A''] (nodeMap (projr (UpdateSelf storeA ''k'' (StringValue ''v'') 2)))
   \<and> GetStoreKeyValue (projr (UpdateSelf storeA ''k'' (StringValue ''v'') 2)) ''k'' [''A''] ''A''
       = Some \<lparr>Id_v = ''A'', GenNumber_v = 0, LastUpdateTs_v = 2,
                Status_v = NODE_STATUS_NOT_IN_QUORUM, Value_v = StringValue ''v''\<rparr>"
  using GetStoreKeyValue_entries
          [of "[''A'']" "projr (UpdateSelf storeA ''k'' (StringValue ''v'') 2)" "''k''" "''A''"]
  by (simp add: scenario_defs UpdateSelf_def lookupUnchecked_def)

text \<open>
  The claim C8 as it is written fails at a node with a valid status and a nil \<open>Value\<close>
  map, which \<open>len\<close> sees as empty: the peer B of \<open>storeNilValue\<close> is up and has no
  key, and \<open>GetStoreKeyValue\<close> has no entry for it.
\<close>

theorem GetStoreKeyValue_nil_value_counterexample:
  "ranges [''A'', ''B''] (nodeMap storeNilValue)
   \<and> nodeMap storeNilValue ''B'' \<noteq> None
   \<and> \<not> (GetStoreKeyValue storeNilValue ''k'' [''A'', ''B''] ''B'' \<noteq> None \<longleftrightarrow>
          statusValid (Status (lookupUnchecked (nodeMap storeNilValue) ''B''))
          \<and> (lenIsZero (Value (lookupUnchecked (nodeMap storeNilValue) ''B''))
               \<or> hasKey (Value (lookupUnchecked (nodeMap storeNilValue) ''B'')) ''k''))"
  by (auto simp add: scenario_defs GetStoreKeyValue_def storeKeyValueStep_def
        lookupUnchecked_def lenIsZero_def hasKey_def)

section \<open>Claims about the merge engine\<close>

text \<open>
  Claim C2. For every store, remote map \<open>diff\<close> and visiting order of \<open>diff\<close>, the entry
  of \<open>nodeMap\<close> at an id after \<open>Update\<close> is the entry before it when the id is not in
  \<open>diff\<close>, is the store's own id, or is not in \<open>nodeMap\<close> (so no id is introduced);
  otherwise, with \<open>local\<close> the entry before and \<open>remote\<close> the one of \<open>diff\<close>, it is
  \<open>remote\<close> with the status of \<open>local\<close> when the status of \<open>local\<close> is not valid or
  the timestamp of \<open>local\<close> is strictly before that of \<open>remote\<close>, and \<open>local\<close>
  otherwise. No other field of the store changes.
\<close>

theorem Update_merges_known_peers:
  "ranges ds diff \<Longrightarrow>
   nodeMap (Update s diff ds) ident =
     (case diff ident of
        None \<Rightarrow> nodeMap s ident
      | Some remote \<Rightarrow>
          if ident = id_s s then nodeMap s ident
          else (case nodeMap s ident of
                  None \<Rightarrow> None
                | Some local \<Rightarrow>
                    if \<not> statusValid (Status local) \<or> LastUpdateTs local < LastUpdateTs remote
                    then Some (remote\<lparr>Status := Status local\<rparr>)
                    else Some local))
   \<and> Update s diff ds = s\<lparr>nodeMap := nodeMap (Update s diff ds)\<rparr>"
proof -
  assume r: "ranges ds diff"
  have frame: "Update s diff ds = s\<lparr>nodeMap := nodeMap (Update s diff ds)\<rparr>"
    unfolding Update_def by (rule fold_updateStep_frame)
  show ?thesis
  proof (cases "ident \<in> set ds")
    case True
    from r have "distinct ds" by (simp add: ranges_def)
    then have "nodeMap (Update s diff ds) ident = nodeMap (updateStep diff ident s) ident"
      unfolding Update_def using True by (rule fold_updateStep_in)
    with frame show ?thesis by (simp only: updateStep_at)
  next
    case False
    with r have "diff ident = None" by (auto simp: ranges_def)
    moreover have "nodeMap (Update s diff ds) ident = nodeMap s ident"
      unfolding Update_def using False by (rule fold_updateStep_notin)
    ultimately show ?thesis using frame by simp
  qed
qed

text \<open>
  Scenario S3: B is known and down, the remote entry of B is newer and says up; the
  merge takes the remote entry and keeps the status down, and leaves A alone.
\<close>

theorem Update_merges_known_peers_witness:
  "ranges [''B''] [''B'' \<mapsto> remoteB]
   \<and> nodeMap (Update storeAB [''B'' \<mapsto> remoteB] [''B'']) ''B''
       = Some (remoteB\<lparr>Status := NODE_STATUS_DOWN\<rparr>)
   \<and> nodeMap (Update storeAB [''B'' \<mapsto> remoteB] [''B'']) ''A'' = nodeMap storeAB ''A''"
  using Update_merges_known_peers [of "[''B'']" "[''B'' \<mapsto> remoteB]" storeAB "''B''"]
        Update_merges_known_peers [of "[''B'']" "[''B'' \<mapsto> remoteB]" storeAB "''A''"]
  by (simp add: storeA_def storeAB_def remoteB_def NewGossipStore_def
        InitStore_def zeroStore_def AddNode_def addNodeUnlocked_def statusValid_def ranges_def)

section \<open>Claims about unknown nodes\<close>

text \<open>
  Claim C7. \<open>UpdateNodeStatus\<close>, \<open>RemoveNode\<close> and \<open>GetLocalNodeInfo\<close> return an error
  exactly when the id is not in \<open>nodeMap\<close>, the error says that the node is unknown,
  and the store returned with an error is the store given (\<open>GetLocalNodeInfo\<close> only
  reads the store).
\<close>

theorem unknown_node_error_leaves_store:
  "(fst (UpdateNodeStatus s ident status now) \<noteq> None \<longleftrightarrow> nodeMap s ident = None)
   \<and> (fst (UpdateNodeStatus s ident status now) \<noteq> None \<longrightarrow>
        fst (UpdateNodeStatus s ident status now) = Some (NodeNotFound ident)
        \<and> snd (UpdateNodeStatus s ident status now) = s)
   \<and> (fst (RemoveNode s ident) \<noteq> None \<longleftrightarrow> nodeMap s ident = None)
   \<and> (fst (RemoveNode s ident) \<noteq> None \<longrightarrow>
        fst (RemoveNode s ident) = Some (NodeNotInMap ident) \<and> snd (RemoveNode s ident) = s)
   \<and> (snd (GetLocalNodeInfo s ident) \<noteq> None \<longleftrightarrow> nodeMap s ident = None)
   \<and> (snd (GetLocalNodeInfo s ident) \<noteq> None \<longrightarrow>
        snd (GetLocalNodeInfo s ident) = Some (NodeNotFound ident))"
  by (simp add: UpdateNodeStatus_def RemoveNode_def removeNodeUnlocked_def GetLocalNodeInfo_def
           split: option.splits)

text \<open>Scenario S2: B is unknown to the store of A; all three fail and the store is as before.\<close>

theorem unknown_node_error_leaves_store_witness:
  "nodeMap storeA ''B'' = None
   \<and> UpdateNodeStatus storeA ''B'' NODE_STATUS_UP 2 = (Some (NodeNotFound ''B''), storeA)
   \<and> RemoveNode storeA ''B'' = (Some (NodeNotInMap ''B''), storeA)
   \<and> snd (GetLocalNodeInfo storeA ''B'') = Some (NodeNotFound ''B'')"
  using unknown_node_error_leaves_store [of storeA "''B''" NODE_STATUS_UP 2]
  by (simp add: storeA_def NewGossipStore_def InitStore_def zeroStore_def prod_eq_iff
        UpdateNodeStatus_def RemoveNode_def removeNodeUnlocked_def GetLocalNodeInfo_def)

section \<open>Claims about the cluster reconciler\<close>

text \<open>
  Claim C3, as amended. For every peer map \<open>peers\<close> and visiting orders of the maps,
  after \<open>updateCluster\<close> the key set of \<open>GetLocalState\<close> is the key set of \<open>peers\<close>
  (which is that set with the store's own id exactly when the own id is in \<open>peers\<close>);
  every id of \<open>peers\<close> that was not in \<open>nodeMap\<close> is there with status down, the
  quorum-member flag, domain and address of \<open>peers\<close>, and the time of the call; and
  \<open>clusterSize\<close> is the number of keys of \<open>peers\<close>.
\<close>

theorem updateCluster_reconciles_to_peers:
  assumes "clusterOrders s peers ks ps ks2 now"
    and "ranges ks3 (nodeMap (fst (updateCluster s peers ks ps ks2 now)))"
  shows "dom (GetLocalState (fst (updateCluster s peers ks ps ks2 now)) ks3) = dom peers
    \<and> (peers (id_s s) \<noteq> None \<longrightarrow>
         dom (GetLocalState (fst (updateCluster s peers ks ps ks2 now)) ks3)
           = dom peers \<union> {id_s s})
    \<and> (\<forall>i u. peers i = Some u \<and> nodeMap s i = None \<longrightarrow>
         GetLocalState (fst (updateCluster s peers ks ps ks2 now)) ks3 i =
           Some \<lparr>Id_n = i, GenNumber = 0, LastUpdateTs = now, WaitForGenUpdateTs = now,
                 Status = NODE_STATUS_DOWN, Value = Some Map.empty,
                 QuorumMember = QuorumMember_u u, ClusterDomain = ClusterDomain_u u,
                 Addr = Addr_u u\<rparr>)
    \<and> clusterSize (fst (updateCluster s peers ks ps ks2 now)) = card (dom peers)"
proof -
  let ?s' = "fst (updateCluster s peers ks ps ks2 now)"
  have loc: "GetLocalState ?s' ks3 = nodeMap ?s'"
    unfolding GetLocalState_def using assms(2) by (rule getLocalState_eq)
  have nm: "nodeMap ?s' = (\<lambda>i. case peers i of
                           None \<Rightarrow> None
                         | Some u \<Rightarrow> Some (refreshed u (case nodeMap s i of
                                                         None \<Rightarrow> addedNode peers now i
                                                       | Some n \<Rightarrow> n)))"
    by (simp add: updateCluster_eq[OF assms(1)])
  have d: "dom (nodeMap ?s') = dom peers"
    by (auto simp add: nm split: option.splits)
  have a: "\<forall>i u. peers i = Some u \<and> nodeMap s i = None \<longrightarrow>
         nodeMap ?s' i =
           Some \<lparr>Id_n = i, GenNumber = 0, LastUpdateTs = now, WaitForGenUpdateTs = now,
                 Status = NODE_STATUS_DOWN, Value = Some Map.empty,
                 QuorumMember = QuorumMember_u u, ClusterDomain = ClusterDomain_u u,
                 Addr = Addr_u u\<rparr>"
    by (simp add: nm refreshed_def addedNode_def peerUpdate_def)
  from clusterOrders_set[OF assms(1)] have "distinct ps" "set ps = dom peers" by simp_all
  then have "length ps = card (dom peers)" using distinct_card by fastforce
  then have c: "clusterSize ?s' = card (dom peers)"
    by (simp add: updateCluster_eq[OF assms(1)])
  from d a c show ?thesis unfolding loc by auto
qed

text \<open>
  Scenario S4: the store knows A (itself) and B, the peers are A and C; afterwards
  the keys are A and C, C is down in \<open>d2\<close>, and the cluster size is 2.
\<close>

theorem updateCluster_reconciles_to_peers_witness:
  "clusterOrders storeABup peersAC [''A'', ''B''] [''A'', ''C''] [''C'', ''A''] 3
   \<and> ranges [''A'', ''C'']
        (nodeMap (fst (updateCluster storeABup peersAC [''A'', ''B''] [''A'', ''C''] [''C'', ''A''] 3)))
   \<and> dom (GetLocalState
            (fst (updateCluster storeABup peersAC [''A'', ''B''] [''A'', ''C''] [''C'', ''A''] 3))
            [''A'', ''C'']) = {''A'', ''C''}
   \<and> GetLocalState
        (fst (updateCluster storeABup peersAC [''A'', ''B''] [''A'', ''C''] [''C'', ''A''] 3))
        [''A'', ''C''] ''C''
      = Some \<lparr>Id_n = ''C'', GenNumber = 0, LastUpdateTs = 3, WaitForGenUpdateTs = 3,
               Status = NODE_STATUS_DOWN, Value = Some Map.empty,
               QuorumMember = True, ClusterDomain = ''d2'', Addr = ''c:1''\<rparr>
   \<and> clusterSize (fst (updateCluster storeABup peersAC [''A'', ''B''] [''A'', ''C''] [''C'', ''A''] 3)) = 2"
proof -
  note co = clusterOrders_storeABup
  have r3: "ranges [''A'', ''C'']
        (nodeMap (fst (updateCluster storeABup peersAC [''A'', ''B''] [''A'', ''C''] [''C'', ''A''] 3)))"
    unfolding ranges_def updateCluster_dom[OF co] by (auto simp: peersAC_def)
  note dp = dom_peersAC
  have pc: "peersAC ''C'' = Some \<lparr>Addr_u = ''c:1'', QuorumMember_u = True, ClusterDomain_u = ''d2''\<rparr>"
    and nc: "nodeMap storeABup ''C'' = None"
    by (simp_all add: peersAC_def scenario_defs)
  from updateCluster_reconciles_to_peers[OF co r3] co r3 dp pc nc show ?thesis
    by simp
qed

text \<open>
  The claim C3 as it is written fails when the own id is not in \<open>peers\<close>: the own
  entry is in \<open>removeNodeIds\<close> and is removed like any other, so that the key set
  is that of \<open>peers\<close> without the own id.
\<close>

theorem updateCluster_drops_self_counterexample:
  "clusterOrders storeA peersB [''A''] [''B''] [''B''] 2
   \<and> ranges [''B''] (nodeMap (fst (updateCluster storeA peersB [''A''] [''B''] [''B''] 2)))
   \<and> dom (GetLocalState (fst (updateCluster storeA peersB [''A''] [''B''] [''B''] 2)) [''B''])
       \<noteq> dom peersB \<union> {id_s storeA}"
proof -
  have co: "clusterOrders storeA peersB [''A''] [''B''] [''B''] 2"
    by (auto simp add: clusterOrders_def ranges_def reconcileNodes_eq scenario_defs peersB_def
          split: if_splits)
  have r3: "ranges [''B''] (nodeMap (fst (updateCluster storeA peersB [''A''] [''B''] [''B''] 2)))"
    unfolding ranges_def updateCluster_dom[OF co] by (auto simp: peersB_def)
  have "GetLocalState (fst (updateCluster storeA peersB [''A''] [''B''] [''B''] 2)) [''B''] ''A'' = None"
    unfolding GetLocalState_def getLocalState_eq[OF r3] updateCluster_nodeMap[OF co]
    by (simp add: peersB_def)
  then have "''A'' \<notin> dom (GetLocalState (fst (updateCluster storeA peersB [''A''] [''B''] [''B''] 2)) [''B''])"
    by blast
  moreover have "id_s storeA = ''A''" by (simp add: scenario_defs)
  ultimately show ?thesis using co r3 by auto
qed

text \<open>
  Claim C9. For every store, peer map and visiting orders, a second \<open>updateCluster\<close>
  with the same peer map, whatever its visiting orders and its time, returns the
  store the first call returned (every field of it) and the same map of quorum
  members per domain.
\<close>

theorem updateCluster_idempotent:
  assumes "clusterOrders s peers ks ps ks2 now"
    and "clusterOrders (fst (updateCluster s peers ks ps ks2 now)) peers ks' ps' ks2' now'"
  shows "updateCluster (fst (updateCluster s peers ks ps ks2 now)) peers ks' ps' ks2' now'
           = updateCluster s peers ks ps ks2 now"
proof -
  let ?s1 = "fst (updateCluster s peers ks ps ks2 now)"
  note e1 = updateCluster_eq[OF assms(1)]
  note e2 = updateCluster_eq[OF assms(2)]
  from clusterOrders_set[OF assms(1)] have o1: "distinct ks2" "set ks2 = dom peers"
    "distinct ps" "set ps = dom peers" by simp_all
  from clusterOrders_set[OF assms(2)] have o2: "distinct ks2'" "set ks2' = dom peers"
    "distinct ps'" "set ps' = dom peers" by simp_all
  have len: "length ps' = length ps"
    using o1 o2 by (metis distinct_card)
  have q: "quorumMembersIn peers ks2' = quorumMembersIn peers ks2"
    using o1 o2 by (intro ext quorumMembersIn_order) simp_all
  have nm: "(\<lambda>i. case peers i of
                    None \<Rightarrow> None
                  | Some u \<Rightarrow> Some (refreshed u (case nodeMap ?s1 i of
                                                  None \<Rightarrow> addedNode peers now' i
                                                | Some n \<Rightarrow> n)))
            = nodeMap ?s1"
    by (auto simp add: e1 fun_eq_iff refreshed_def split: option.splits)
  have idx: "indexNodes peers ks2' (failureDomainsMap ?s1) = failureDomainsMap ?s1"
    by (rule indexNodes_idem) (simp add: e1 inIndex_indexNodes o1 o2)
  have "updateCluster ?s1 peers ks' ps' ks2' now' =
     (?s1\<lparr>clusterSize := length ps, nodeMap := nodeMap ?s1,
          failureDomainsMap := failureDomainsMap ?s1\<rparr>,
      (\<lambda>d. if quorumMembersIn peers ks2 d = 0 then None
            else Some (quorumMembersIn peers ks2 d)))"
    by (simp only: e2 nm idx len q)
  also have "\<dots> = updateCluster s peers ks ps ks2 now"
    by (simp add: e1)
  finally show ?thesis .
qed

text \<open>Scenario S4 reconciled twice, the second time in other visiting orders and later.\<close>

theorem updateCluster_idempotent_witness:
  "clusterOrders storeABup peersAC [''A'', ''B''] [''A'', ''C''] [''C'', ''A''] 3
   \<and> clusterOrders
        (fst (updateCluster storeABup peersAC [''A'', ''B''] [''A'', ''C''] [''C'', ''A''] 3))
        peersAC [''C'', ''A''] [''C'', ''A''] [''A'', ''C''] 9
   \<and> updateCluster
        (fst (updateCluster storeABup peersAC [''A'', ''B''] [''A'', ''C''] [''C'', ''A''] 3))
        peersAC [''C'', ''A''] [''C'', ''A''] [''A'', ''C''] 9
      = updateCluster storeABup peersAC [''A'', ''B''] [''A'', ''C''] [''C'', ''A''] 3"
proof -
  note co = clusterOrders_storeABup
  have co2: "clusterOrders
        (fst (updateCluster storeABup peersAC [''A'', ''B''] [''A'', ''C''] [''C'', ''A''] 3))
        peersAC [''C'', ''A''] [''C'', ''A''] [''A'', ''C''] 9"
    by (rule clusterOrdersI) (auto simp add: ranges_def updateCluster_dom[OF co] dom_peersAC)
  from updateCluster_idempotent[OF co co2] co co2 show ?thesis by simp
qed

section \<open>Claims about the self entry\<close>

text \<open>
  Claim C1, as amended. In every store reached from \<open>InitStore\<close> by operations none of
  which is \<open>RemoveNode\<close> of the own id or \<open>updateCluster\<close> with a peer map without the
  own id, the self entry \<open>nodeMap[selfId]\<close> is present. Those two operations have no
  guard: \<open>RemoveNode(selfId)\<close> leaves no self entry, and neither does \<open>updateCluster\<close>
  with a peer map that does not contain the own id.
\<close>

theorem self_entry_kept_unless_removed:
  "(reach keepsSelf s \<longrightarrow> nodeMap s (id_s s) \<noteq> None)
   \<and> nodeMap (snd (RemoveNode s (id_s s))) (id_s (snd (RemoveNode s (id_s s)))) = None
   \<and> (clusterOrders s peers ks ps ks2 now \<and> peers (id_s s) = None \<longrightarrow>
        nodeMap (fst (updateCluster s peers ks ps ks2 now))
          (id_s (fst (updateCluster s peers ks ps ks2 now))) = None)"
proof -
  have 1: "reach keepsSelf s \<longrightarrow> nodeMap s (id_s s) \<noteq> None"
    using reach_keepsSelf_selfWritable[of s]
    by (auto simp add: selfWritable_def split: option.splits)
  have 2: "nodeMap (snd (RemoveNode s (id_s s))) (id_s (snd (RemoveNode s (id_s s)))) = None"
    by (simp add: RemoveNode_def removeNodeUnlocked_def split: option.splits)
  have 3: "clusterOrders s peers ks ps ks2 now \<and> peers (id_s s) = None \<longrightarrow>
        nodeMap (fst (updateCluster s peers ks ps ks2 now))
          (id_s (fst (updateCluster s peers ks ps ks2 now))) = None"
    by (auto simp add: updateCluster_eq)
  from 1 2 3 show ?thesis by blast
qed

text \<open>
  The self entry of A is there after \<open>AddNode\<close> of B; it is gone after a reconciliation
  with the peer map that has only B.
\<close>

theorem self_entry_kept_unless_removed_witness:
  "reach keepsSelf storeAB \<and> nodeMap storeAB (id_s storeAB) \<noteq> None
   \<and> clusterOrders storeA peersB [''A''] [''B''] [''B''] 2 \<and> peersB (id_s storeA) = None
   \<and> nodeMap (fst (updateCluster storeA peersB [''A''] [''B''] [''B''] 2))
          (id_s (fst (updateCluster storeA peersB [''A''] [''B''] [''B''] 2))) = None"
proof -
  have p: "peersB (id_s storeA) = None" by (simp add: peersB_def scenario_defs)
  from self_entry_kept_unless_removed[of storeAB]
       self_entry_kept_unless_removed[of storeA peersB "[''A'']" "[''B'']" "[''B'']" 2]
       reach_storeAB clusterOrders_storeA_B p
  show ?thesis by blast
qed

text \<open>
  The claim C1 as it is written fails on the store of A: after \<open>RemoveNode("A")\<close>, and
  after \<open>updateCluster\<close> with the peer map that has only B, there is no self entry.
\<close>

theorem self_entry_removed_counterexample:
  "reach anyOp storeA \<and> nodeMap storeA (id_s storeA) \<noteq> None
   \<and> reach anyOp (snd (RemoveNode storeA (id_s storeA)))
   \<and> nodeMap (snd (RemoveNode storeA (id_s storeA)))
        (id_s (snd (RemoveNode storeA (id_s storeA)))) = None
   \<and> clusterOrders storeA peersB [''A''] [''B''] [''B''] 2
   \<and> reach anyOp (fst (updateCluster storeA peersB [''A''] [''B''] [''B''] 2))
   \<and> nodeMap (fst (updateCluster storeA peersB [''A''] [''B''] [''B''] 2))
        (id_s (fst (updateCluster storeA peersB [''A''] [''B''] [''B''] 2))) = None"
proof -
  have a: "nodeMap storeA (id_s storeA) \<noteq> None" by (simp add: scenario_defs)
  have b: "reach anyOp (snd (RemoveNode storeA (id_s storeA)))"
    by (rule reach.step[OF reach_storeA, where op = "OpRemoveNode (id_s storeA)"])
       (simp_all add: anyOp_def)
  have c: "nodeMap (snd (RemoveNode storeA (id_s storeA)))
        (id_s (snd (RemoveNode storeA (id_s storeA)))) = None"
    by (simp add: RemoveNode_def removeNodeUnlocked_def split: option.splits)
  have d: "reach anyOp (fst (updateCluster storeA peersB [''A''] [''B''] [''B''] 2))"
    by (rule reach.step[OF reach_storeA,
          where op = "OpUpdateCluster peersB [''A''] [''B''] [''B''] 2"])
       (simp_all add: anyOp_def clusterOrders_storeA_B)
  have e: "nodeMap (fst (updateCluster storeA peersB [''A''] [''B''] [''B''] 2))
        (id_s (fst (updateCluster storeA peersB [''A''] [''B''] [''B''] 2))) = None"
    unfolding updateCluster_eq[OF clusterOrders_storeA_B]
    by (simp add: peersB_def scenario_defs)
  from reach_storeA a b c clusterOrders_storeA_B d e show ?thesis by blast
qed

text \<open>
  Claim C10, as amended. \<open>UpdateSelf\<close> faults (a write into a nil map, not an error
  value) exactly when there is no self entry whose \<open>Value\<close> map is not nil: it faults
  when the self entry is absent, and with a self entry whose map is not nil it
  stores the value and the time. \<open>InitStore\<close> makes such an entry, and every store
  reached without removing the self entry has one, so \<open>UpdateSelf\<close> does not fault
  there.
\<close>

theorem UpdateSelf_faults_iff_not_writable:
  "(UpdateSelf s key val now = Inl AssignmentToNilMap \<longleftrightarrow> \<not> selfWritable s)
   \<and> (nodeMap s (id_s s) = None \<longrightarrow> UpdateSelf s key val now = Inl AssignmentToNilMap)
   \<and> (\<forall>n vm. nodeMap s (id_s s) = Some n \<and> Value n = Some vm \<longrightarrow>
         UpdateSelf s key val now =
           Inr (s\<lparr>nodeMap := (nodeMap s)(id_s s \<mapsto>
                     n\<lparr>Value := Some (vm(key \<mapsto> val)), LastUpdateTs := now\<rparr>)\<rparr>))
   \<and> (reach keepsSelf s \<longrightarrow> selfWritable s)
   \<and> selfWritable (InitStore s0 ident version status clusterId selfClusterDomain now0)"
proof -
  have 1: "UpdateSelf s key val now = Inl AssignmentToNilMap \<longleftrightarrow> \<not> selfWritable s"
    by (simp add: UpdateSelf_def selfWritable_def lookupUnchecked_def zeroNodeInfo_def Let_def
          split: option.splits)
  have 2: "nodeMap s (id_s s) = None \<longrightarrow> UpdateSelf s key val now = Inl AssignmentToNilMap"
    by (simp add: UpdateSelf_def lookupUnchecked_def zeroNodeInfo_def)
  have 3: "\<forall>n vm. nodeMap s (id_s s) = Some n \<and> Value n = Some vm \<longrightarrow>
         UpdateSelf s key val now =
           Inr (s\<lparr>nodeMap := (nodeMap s)(id_s s \<mapsto>
                     n\<lparr>Value := Some (vm(key \<mapsto> val)), LastUpdateTs := now\<rparr>)\<rparr>)"
    by (simp add: UpdateSelf_def lookupUnchecked_def)
  have 4: "reach keepsSelf s \<longrightarrow> selfWritable s"
    using reach_keepsSelf_selfWritable by blast
  have 5: "selfWritable (InitStore s0 ident version status clusterId selfClusterDomain now0)"
    by (simp add: selfWritable_def InitStore_def)
  from 1 2 3 4 5 show ?thesis by blast
qed

text \<open>
  \<open>UpdateSelf\<close> succeeds on the store of A, and faults once A has removed its own
  entry.
\<close>

theorem UpdateSelf_faults_iff_not_writable_witness:
  "reach keepsSelf storeA \<and> selfWritable storeA
   \<and> UpdateSelf storeA ''k'' (StringValue ''v'') 2 \<noteq> Inl AssignmentToNilMap
   \<and> nodeMap (snd (RemoveNode storeA ''A'')) (id_s (snd (RemoveNode storeA ''A''))) = None
   \<and> UpdateSelf (snd (RemoveNode storeA ''A'')) ''k'' (StringValue ''v'') 2 = Inl AssignmentToNilMap"
proof -
  have n: "nodeMap (snd (RemoveNode storeA ''A'')) (id_s (snd (RemoveNode storeA ''A''))) = None"
    by (simp add: RemoveNode_def removeNodeUnlocked_def scenario_defs)
  from UpdateSelf_faults_iff_not_writable[of storeA "''k''" "StringValue ''v''" 2]
       UpdateSelf_faults_iff_not_writable[of "snd (RemoveNode storeA ''A'')" "''k''" "StringValue ''v''" 2]
       reach_storeA[of keepsSelf] n
  show ?thesis by blast
qed

text \<open>
  The claim C10 as it is written fails on a store with a self entry: after
  \<open>RemoveNode("A")\<close> the unchecked lookup of \<open>updateSelfTs\<close> writes back a zero entry,
  whose \<open>Value\<close> map is nil, and \<open>UpdateSelf\<close> faults although the self entry is there.
\<close>

theorem UpdateSelf_faults_with_self_entry_counterexample:
  "reach anyOp storeRevived \<and> nodeMap storeRevived (id_s storeRevived) \<noteq> None
   \<and> UpdateSelf storeRevived ''k'' (StringValue ''v'') 3 = Inl AssignmentToNilMap"
proof -
  have "nodeMap storeRevived (id_s storeRevived) \<noteq> None"
    by (simp add: storeRevived_def updateSelfTs_def Let_def)
  moreover have "UpdateSelf storeRevived ''k'' (StringValue ''v'') 3 = Inl AssignmentToNilMap"
    by (simp add: storeRevived_def updateSelfTs_def UpdateSelf_def RemoveNode_def
          removeNodeUnlocked_def lookupUnchecked_def zeroNodeInfo_def scenario_defs Let_def)
  ultimately show ?thesis using reach_storeRevived by blast
qed

section \<open>Claims about timestamps\<close>

text \<open>
  Claim C6, as amended. \<open>UpdateSelf\<close> (on a self entry whose \<open>Value\<close> map is not nil),
  \<open>UpdateNodeStatus\<close> (on a known id), \<open>AddNode\<close> and \<open>updateSelfClusterDomain\<close> (when
  the domain differs) store the entry they write with the time of the call as its
  \<open>LastUpdateTs\<close> and leave every other entry of \<open>nodeMap\<close> as it was (so that every
  entry that differs afterwards carries the time of the call);
  \<open>updateSelfClusterDomain\<close> with the current domain leaves the store as it was.
  \<open>updateCluster\<close> gives the time of the call to each entry it adds; its refresh of
  the quorum-member flag, domain and address of an entry that was there leaves the
  \<open>LastUpdateTs\<close> of that entry as it was.
\<close>

theorem writes_stamp_the_entry:
  "(\<forall>n vm. nodeMap s (id_s s) = Some n \<and> Value n = Some vm \<longrightarrow>
       (\<exists>s'. UpdateSelf s key val now = Inr s'
             \<and> nodeMap s' = (nodeMap s)(id_s s \<mapsto>
                   n\<lparr>Value := Some (vm(key \<mapsto> val)), LastUpdateTs := now\<rparr>)
             \<and> map_option LastUpdateTs (nodeMap s' (id_s s)) = Some now))
   \<and> (\<forall>n. nodeMap s ident = Some n \<longrightarrow>
         nodeMap (snd (UpdateNodeStatus s ident status now))
           = (nodeMap s)(ident \<mapsto> n\<lparr>Status := status, LastUpdateTs := now\<rparr>)
         \<and> map_option LastUpdateTs (nodeMap (snd (UpdateNodeStatus s ident status now)) ident)
             = Some now)
   \<and> (\<forall>n. nodeMap s ident = Some n \<longrightarrow>
         nodeMap (AddNode s ident status quorumMember failureDomain now)
           = (nodeMap s)(ident \<mapsto> n\<lparr>Status := status, LastUpdateTs := now,
                                       QuorumMember := quorumMember,
                                       ClusterDomain := failureDomain\<rparr>))
   \<and> (nodeMap s ident = None \<longrightarrow>
         nodeMap (AddNode s ident status quorumMember failureDomain now)
           = (nodeMap s)(ident \<mapsto>
               \<lparr>Id_n = ident, GenNumber = 0, LastUpdateTs = now, WaitForGenUpdateTs = now,
                Status = status, Value = Some Map.empty, QuorumMember = quorumMember,
                ClusterDomain = failureDomain, Addr = []\<rparr>))
   \<and> map_option LastUpdateTs (nodeMap (AddNode s ident status quorumMember failureDomain now) ident)
       = Some now
   \<and> (ClusterDomain (lookupUnchecked (nodeMap s) (id_s s)) \<noteq> selfClusterDomain \<longrightarrow>
         nodeMap (snd (updateSelfClusterDomain s selfClusterDomain now))
           = (nodeMap s)(id_s s \<mapsto> (lookupUnchecked (nodeMap s) (id_s s))
                           \<lparr>ClusterDomain := selfClusterDomain, LastUpdateTs := now\<rparr>)
         \<and> map_option LastUpdateTs
               (nodeMap (snd (updateSelfClusterDomain s selfClusterDomain now)) (id_s s))
             = Some now)
   \<and> (ClusterDomain (lookupUnchecked (nodeMap s) (id_s s)) = selfClusterDomain \<longrightarrow>
         snd (updateSelfClusterDomain s selfClusterDomain now) = s)
   \<and> (UpdateSelf s key val now = Inr s' \<longrightarrow> stamped now (nodeMap s) (nodeMap s'))
   \<and> stamped now (nodeMap s) (nodeMap (snd (UpdateNodeStatus s ident status now)))
   \<and> stamped now (nodeMap s) (nodeMap (AddNode s ident status quorumMember failureDomain now))
   \<and> stamped now (nodeMap s) (nodeMap (snd (updateSelfClusterDomain s selfClusterDomain now)))
   \<and> (clusterOrders s peers ks ps ks2 now \<longrightarrow>
        (\<forall>i. peers i \<noteq> None \<and> nodeMap s i = None \<longrightarrow>
           map_option LastUpdateTs (nodeMap (fst (updateCluster s peers ks ps ks2 now)) i)
             = Some now)
        \<and> (\<forall>i n. peers i \<noteq> None \<and> nodeMap s i = Some n \<longrightarrow>
           map_option LastUpdateTs (nodeMap (fst (updateCluster s peers ks ps ks2 now)) i)
             = Some (LastUpdateTs n)))"
proof -
  have e1: "\<forall>n vm. nodeMap s (id_s s) = Some n \<and> Value n = Some vm \<longrightarrow>
       (\<exists>s'. UpdateSelf s key val now = Inr s'
             \<and> nodeMap s' = (nodeMap s)(id_s s \<mapsto>
                   n\<lparr>Value := Some (vm(key \<mapsto> val)), LastUpdateTs := now\<rparr>)
             \<and> map_option LastUpdateTs (nodeMap s' (id_s s)) = Some now)"
    by (simp add: UpdateSelf_def lookupUnchecked_def)
  have e2: "\<forall>n. nodeMap s ident = Some n \<longrightarrow>
         nodeMap (snd (UpdateNodeStatus s ident status now))
           = (nodeMap s)(ident \<mapsto> n\<lparr>Status := status, LastUpdateTs := now\<rparr>)
         \<and> map_option LastUpdateTs (nodeMap (snd (UpdateNodeStatus s ident status now)) ident)
             = Some now"
    by (simp add: UpdateNodeStatus_def)
  have e3: "\<forall>n. nodeMap s ident = Some n \<longrightarrow>
         nodeMap (AddNode s ident status quorumMember failureDomain now)
           = (nodeMap s)(ident \<mapsto> n\<lparr>Status := status, LastUpdateTs := now,
                                       QuorumMember := quorumMember,
                                       ClusterDomain := failureDomain\<rparr>)"
    by (simp add: AddNode_def addNodeUnlocked_def)
  have e4: "nodeMap s ident = None \<longrightarrow>
         nodeMap (AddNode s ident status quorumMember failureDomain now)
           = (nodeMap s)(ident \<mapsto>
               \<lparr>Id_n = ident, GenNumber = 0, LastUpdateTs = now, WaitForGenUpdateTs = now,
                Status = status, Value = Some Map.empty, QuorumMember = quorumMember,
                ClusterDomain = failureDomain, Addr = []\<rparr>)"
    by (simp add: AddNode_def addNodeUnlocked_def)
  have e5: "map_option LastUpdateTs
              (nodeMap (AddNode s ident status quorumMember failureDomain now) ident) = Some now"
    by (simp add: AddNode_def addNodeUnlocked_def split: option.splits)
  have e6: "ClusterDomain (lookupUnchecked (nodeMap s) (id_s s)) \<noteq> selfClusterDomain \<longrightarrow>
         nodeMap (snd (updateSelfClusterDomain s selfClusterDomain now))
           = (nodeMap s)(id_s s \<mapsto> (lookupUnchecked (nodeMap s) (id_s s))
                           \<lparr>ClusterDomain := selfClusterDomain, LastUpdateTs := now\<rparr>)
         \<and> map_option LastUpdateTs
               (nodeMap (snd (updateSelfClusterDomain s selfClusterDomain now)) (id_s s))
             = Some now"
    by (simp add: updateSelfClusterDomain_def Let_def)
  have e7: "ClusterDomain (lookupUnchecked (nodeMap s) (id_s s)) = selfClusterDomain \<longrightarrow>
         snd (updateSelfClusterDomain s selfClusterDomain now) = s"
    by (simp add: updateSelfClusterDomain_def Let_def)
  have 1: "UpdateSelf s key val now = Inr s' \<longrightarrow> stamped now (nodeMap s) (nodeMap s')"
    by (auto simp add: UpdateSelf_def Let_def stamped_upd split: option.splits)
  have 2: "stamped now (nodeMap s) (nodeMap (snd (UpdateNodeStatus s ident status now)))"
    by (simp add: UpdateNodeStatus_def stamped_upd stamped_refl split: option.splits)
  have 3: "stamped now (nodeMap s) (nodeMap (AddNode s ident status quorumMember failureDomain now))"
    by (simp add: AddNode_def addNodeUnlocked_def stamped_upd split: option.splits)
  have 4: "stamped now (nodeMap s) (nodeMap (snd (updateSelfClusterDomain s selfClusterDomain now)))"
    by (simp add: updateSelfClusterDomain_def Let_def stamped_upd stamped_refl)
  have 5: "clusterOrders s peers ks ps ks2 now \<longrightarrow>
        (\<forall>i. peers i \<noteq> None \<and> nodeMap s i = None \<longrightarrow>
           map_option LastUpdateTs (nodeMap (fst (updateCluster s peers ks ps ks2 now)) i)
             = Some now)
        \<and> (\<forall>i n. peers i \<noteq> None \<and> nodeMap s i = Some n \<longrightarrow>
           map_option LastUpdateTs (nodeMap (fst (updateCluster s peers ks ps ks2 now)) i)
             = Some (LastUpdateTs n))"
    by (auto simp add: updateCluster_nodeMap refreshed_def addedNode_def)
  show ?thesis
    apply (intro conjI)
    using e1 apply blast
    using e2 apply blast
    using e3 apply blast
    using e4 apply blast
    using e5 apply blast
    using e6 apply blast
    using e7 apply blast
    using 1 apply blast
    using 2 apply blast
    using 3 apply blast
    using 4 apply blast
    using 5 apply blast
    done
qed

text \<open>
  On the store of A at time 2, \<open>UpdateSelf\<close>, \<open>UpdateNodeStatus\<close>, \<open>AddNode\<close> (of the
  unknown B and of the known A) and \<open>updateSelfClusterDomain\<close> to \<open>d2\<close> each store the
  timestamp 2; the reconciliation of scenario S4 at time 3 stamps the added C and
  leaves the timestamp 1 of A.
\<close>

theorem writes_stamp_the_entry_witness:
  "nodeMap storeA (id_s storeA) \<noteq> None
   \<and> UpdateSelf storeA ''k'' (StringValue ''v'') 2
       = Inr (projr (UpdateSelf storeA ''k'' (StringValue ''v'') 2))
   \<and> map_option LastUpdateTs
        (nodeMap (projr (UpdateSelf storeA ''k'' (StringValue ''v'') 2)) ''A'') = Some 2
   \<and> map_option LastUpdateTs
        (nodeMap (snd (UpdateNodeStatus storeA ''A'' NODE_STATUS_UP 2)) ''A'') = Some 2
   \<and> map_option Status
        (nodeMap (snd (UpdateNodeStatus storeA ''A'' NODE_STATUS_UP 2)) ''A'') = Some NODE_STATUS_UP
   \<and> map_option LastUpdateTs
        (nodeMap (AddNode storeA ''B'' NODE_STATUS_DOWN True ''d1'' 2) ''B'') = Some 2
   \<and> map_option LastUpdateTs
        (nodeMap (AddNode storeA ''A'' NODE_STATUS_UP True ''d2'' 2) ''A'') = Some 2
   \<and> map_option LastUpdateTs
        (nodeMap (snd (updateSelfClusterDomain storeA ''d2'' 2)) ''A'') = Some 2
   \<and> snd (updateSelfClusterDomain storeA ''d1'' 2) = storeA
   \<and> stamped 2 (nodeMap storeA) (nodeMap (projr (UpdateSelf storeA ''k'' (StringValue ''v'') 2)))
   \<and> clusterOrders storeABup peersAC [''A'', ''B''] [''A'', ''C''] [''C'', ''A''] 3
   \<and> map_option LastUpdateTs
        (nodeMap (fst (updateCluster storeABup peersAC [''A'', ''B''] [''A'', ''C''] [''C'', ''A''] 3))
           ''C'') = Some 3
   \<and> map_option LastUpdateTs
        (nodeMap (fst (updateCluster storeABup peersAC [''A'', ''B''] [''A'', ''C''] [''C'', ''A''] 3))
           ''A'') = Some 1"
proof -
  let ?s' = "fst (updateCluster storeABup peersAC [''A'', ''B''] [''A'', ''C''] [''C'', ''A''] 3)"
  let ?n = "lookupUnchecked (nodeMap storeA) ''A''"
  have i: "id_s storeA = ''A''" by (simp add: scenario_defs)
  have n: "nodeMap storeA ''A'' = Some ?n" and v: "Value ?n = Some Map.empty"
    and d: "ClusterDomain ?n = ''d1''" and b: "nodeMap storeA ''B'' = None"
    by (simp_all add: scenario_defs lookupUnchecked_def)
  have pa: "peersAC ''A'' \<noteq> None" and pc: "peersAC ''C'' \<noteq> None"
    by (simp_all add: peersAC_def)
  have nc: "nodeMap storeABup ''C'' = None"
    and na: "nodeMap storeABup ''A'' = Some (lookupUnchecked (nodeMap storeABup) ''A'')"
    and ta: "LastUpdateTs (lookupUnchecked (nodeMap storeABup) ''A'') = 1"
    by (simp_all add: scenario_defs lookupUnchecked_def)
  note t1 = writes_stamp_the_entry[of storeA "''k''" "StringValue ''v''" 2 "''A''" NODE_STATUS_UP
         True "''d2''" "''d2''" "projr (UpdateSelf storeA ''k'' (StringValue ''v'') 2)"]
  note t2 = writes_stamp_the_entry[of storeA "''k''" "StringValue ''v''" 2 "''B''" NODE_STATUS_DOWN
         True "''d1''" "''d1''" "projr (UpdateSelf storeA ''k'' (StringValue ''v'') 2)"]
  note t3 = writes_stamp_the_entry[of storeABup _ _ 3 _ _ _ _ _ _ peersAC
         "[''A'', ''B'']" "[''A'', ''C'']" "[''C'', ''A'']"]
  have n': "nodeMap storeA (id_s storeA) = Some ?n" using n i by simp
  from t1 have "\<forall>n vm. nodeMap storeA (id_s storeA) = Some n \<and> Value n = Some vm \<longrightarrow>
       (\<exists>s'. UpdateSelf storeA ''k'' (StringValue ''v'') 2 = Inr s'
             \<and> nodeMap s' = (nodeMap storeA)(id_s storeA \<mapsto>
                   n\<lparr>Value := Some (vm(''k'' \<mapsto> StringValue ''v'')), LastUpdateTs := 2\<rparr>)
             \<and> map_option LastUpdateTs (nodeMap s' (id_s storeA)) = Some 2)"
    by blast
  with n' v obtain s1 where s1: "UpdateSelf storeA ''k'' (StringValue ''v'') 2 = Inr s1"
    and l1: "map_option LastUpdateTs (nodeMap s1 (id_s storeA)) = Some 2"
    by blast
  have p1: "projr (UpdateSelf storeA ''k'' (StringValue ''v'') 2) = s1" by (simp add: s1)
  have u: "UpdateSelf storeA ''k'' (StringValue ''v'') 2
       = Inr (projr (UpdateSelf storeA ''k'' (StringValue ''v'') 2))"
    by (simp add: s1)
  have u2: "map_option LastUpdateTs
        (nodeMap (projr (UpdateSelf storeA ''k'' (StringValue ''v'') 2)) ''A'') = Some 2"
    using l1 i by (simp add: p1)
  from t1 u have st: "stamped 2 (nodeMap storeA)
        (nodeMap (projr (UpdateSelf storeA ''k'' (StringValue ''v'') 2)))"
    by blast
  from t1 have "\<forall>n. nodeMap storeA ''A'' = Some n \<longrightarrow>
         nodeMap (snd (UpdateNodeStatus storeA ''A'' NODE_STATUS_UP 2))
           = (nodeMap storeA)(''A'' \<mapsto> n\<lparr>Status := NODE_STATUS_UP, LastUpdateTs := 2\<rparr>)
         \<and> map_option LastUpdateTs (nodeMap (snd (UpdateNodeStatus storeA ''A'' NODE_STATUS_UP 2)) ''A'')
             = Some 2"
    by blast
  with n have s2: "map_option LastUpdateTs
        (nodeMap (snd (UpdateNodeStatus storeA ''A'' NODE_STATUS_UP 2)) ''A'') = Some 2"
    and s3: "map_option Status
        (nodeMap (snd (UpdateNodeStatus storeA ''A'' NODE_STATUS_UP 2)) ''A'') = Some NODE_STATUS_UP"
    by simp_all
  from t2 have a1: "map_option LastUpdateTs
        (nodeMap (AddNode storeA ''B'' NODE_STATUS_DOWN True ''d1'' 2) ''B'') = Some 2"
    by blast
  from t1 have a2: "map_option LastUpdateTs
        (nodeMap (AddNode storeA ''A'' NODE_STATUS_UP True ''d2'' 2) ''A'') = Some 2"
    by blast
  have d': "ClusterDomain (lookupUnchecked (nodeMap storeA) (id_s storeA)) \<noteq> ''d2''"
    and d'': "ClusterDomain (lookupUnchecked (nodeMap storeA) (id_s storeA)) = ''d1''"
    using d i by simp_all
  from t1 d' have "map_option LastUpdateTs
               (nodeMap (snd (updateSelfClusterDomain storeA ''d2'' 2)) (id_s storeA)) = Some 2"
    by blast
  then have c1: "map_option LastUpdateTs
        (nodeMap (snd (updateSelfClusterDomain storeA ''d2'' 2)) ''A'') = Some 2"
    using i by simp
  from t2 d'' have c2: "snd (updateSelfClusterDomain storeA ''d1'' 2) = storeA"
    by blast
  from t3 clusterOrders_storeABup
  have "(\<forall>i. peersAC i \<noteq> None \<and> nodeMap storeABup i = None \<longrightarrow>
           map_option LastUpdateTs (nodeMap ?s' i) = Some 3)"
    and "(\<forall>i n. peersAC i \<noteq> None \<and> nodeMap storeABup i = Some n \<longrightarrow>
           map_option LastUpdateTs (nodeMap ?s' i) = Some (LastUpdateTs n))"
    by blast+
  with pa pc nc na ta have "map_option LastUpdateTs (nodeMap ?s' ''C'') = Some 3"
    and "map_option LastUpdateTs (nodeMap ?s' ''A'') = Some 1"
    by metis+
  with n' u u2 s2 s3 a1 a2 c1 c2 st clusterOrders_storeABup show ?thesis by blast
qed

text \<open>
  The claim C6 as it is written fails for the refresh of \<open>updateCluster\<close>: reconciling
  the store of A at time 5 with a peer map that moves A to \<open>d2\<close> changes the entry
  of A and leaves its timestamp 1.
\<close>

theorem updateCluster_refresh_not_stamped_counterexample:
  "clusterOrders storeA peersA2 [''A''] [''A''] [''A''] 5
   \<and> \<not> stamped 5 (nodeMap storeA)
          (nodeMap (fst (updateCluster storeA peersA2 [''A''] [''A''] [''A''] 5)))"
proof -
  let ?s' = "fst (updateCluster storeA peersA2 [''A''] [''A''] [''A''] 5)"
  have "nodeMap ?s' ''A'' \<noteq> nodeMap storeA ''A''"
    and "map_option LastUpdateTs (nodeMap ?s' ''A'') = Some 1"
    unfolding updateCluster_nodeMap[OF clusterOrders_storeA_A2]
    by (simp_all add: peersA2_def refreshed_def scenario_defs)
  then have "\<not> (nodeMap ?s' ''A'' = nodeMap storeA ''A''
            \<or> (case nodeMap ?s' ''A'' of None \<Rightarrow> False | Some n \<Rightarrow> LastUpdateTs n = 5))"
    by (auto split: option.splits)
  then have "\<not> stamped 5 (nodeMap storeA) (nodeMap ?s')"
    unfolding stamped_def by blast
  with clusterOrders_storeA_A2 show ?thesis by blast
qed

section \<open>Claims about the failure-domain index\<close>

text \<open>
  Claim C4, as amended. In every store reached by the operations of the store no id
  is in more than one domain bucket. The buckets agree with \<open>nodeMap\<close> for the ids of
  the peer map right after \<open>updateCluster\<close>: such an id is in the bucket of a domain
  exactly when that domain is the one of the peer map, which is also the
  \<open>ClusterDomain\<close> of its entry. (\<open>AddNode\<close>, \<open>RemoveNode\<close>, \<open>updateSelfClusterDomain\<close>
  and \<open>Update\<close> change \<open>nodeMap\<close> and not the index.)
\<close>

theorem index_buckets_disjoint:
  "(reach anyOp s \<longrightarrow> uniqueBuckets s)
   \<and> (clusterOrders s peers ks ps ks2 now \<longrightarrow>
        (\<forall>i u. peers i = Some u \<longrightarrow>
           (\<forall>d. inBucket (fst (updateCluster s peers ks ps ks2 now)) d i
                  \<longleftrightarrow> d = ClusterDomain_u u)
           \<and> map_option ClusterDomain (nodeMap (fst (updateCluster s peers ks ps ks2 now)) i)
               = Some (ClusterDomain_u u)))"
proof -
  have 1: "reach anyOp s \<longrightarrow> uniqueBuckets s"
    using reach_uniqueBuckets by blast
  have 2: "clusterOrders s peers ks ps ks2 now \<longrightarrow>
        (\<forall>i u. peers i = Some u \<longrightarrow>
           (\<forall>d. inBucket (fst (updateCluster s peers ks ps ks2 now)) d i
                  \<longleftrightarrow> d = ClusterDomain_u u)
           \<and> map_option ClusterDomain (nodeMap (fst (updateCluster s peers ks ps ks2 now)) i)
               = Some (ClusterDomain_u u))"
    by (auto simp add: updateCluster_inBucket updateCluster_nodeMap peerUpdate_def refreshed_def)
  from 1 2 show ?thesis by blast
qed

text \<open>
  The buckets of \<open>storeStale\<close> are disjoint; after the reconciliation of scenario S4,
  A is in \<open>d1\<close> and C in \<open>d2\<close> only.
\<close>

theorem index_buckets_disjoint_witness:
  "reach anyOp storeStale \<and> uniqueBuckets storeStale
   \<and> clusterOrders storeABup peersAC [''A'', ''B''] [''A'', ''C''] [''C'', ''A''] 3
   \<and> inBucket (fst (updateCluster storeABup peersAC [''A'', ''B''] [''A'', ''C''] [''C'', ''A''] 3))
        ''d1'' ''A''
   \<and> inBucket (fst (updateCluster storeABup peersAC [''A'', ''B''] [''A'', ''C''] [''C'', ''A''] 3))
        ''d2'' ''C''
   \<and> \<not> inBucket (fst (updateCluster storeABup peersAC [''A'', ''B''] [''A'', ''C''] [''C'', ''A''] 3))
        ''d1'' ''C''
   \<and> map_option ClusterDomain
        (nodeMap (fst (updateCluster storeABup peersAC [''A'', ''B''] [''A'', ''C''] [''C'', ''A''] 3))
           ''C'') = Some ''d2''"
proof -
  have pa: "peersAC ''A'' = Some \<lparr>Addr_u = ''a:1'', QuorumMember_u = True, ClusterDomain_u = ''d1''\<rparr>"
    and pc: "peersAC ''C'' = Some \<lparr>Addr_u = ''c:1'', QuorumMember_u = True, ClusterDomain_u = ''d2''\<rparr>"
    by (simp_all add: peersAC_def)
  let ?s' = "fst (updateCluster storeABup peersAC [''A'', ''B''] [''A'', ''C''] [''C'', ''A''] 3)"
  from index_buckets_disjoint[of storeStale] reach_storeStale
  have u: "uniqueBuckets storeStale" by blast
  from index_buckets_disjoint[of storeABup peersAC "[''A'', ''B'']" "[''A'', ''C'']" "[''C'', ''A'']" 3]
       clusterOrders_storeABup
  have "\<forall>i u. peersAC i = Some u \<longrightarrow>
           (\<forall>d. inBucket ?s' d i \<longleftrightarrow> d = ClusterDomain_u u)
           \<and> map_option ClusterDomain (nodeMap ?s' i) = Some (ClusterDomain_u u)"
    by blast
  then have all: "\<And>i u. peersAC i = Some u \<Longrightarrow>
           (\<forall>d. inBucket ?s' d i \<longleftrightarrow> d = ClusterDomain_u u)
           \<and> map_option ClusterDomain (nodeMap ?s' i) = Some (ClusterDomain_u u)"
    by blast
  from all[OF pa] have a: "inBucket ?s' ''d1'' ''A''" by simp
  from all[OF pc] have c: "inBucket ?s' ''d2'' ''C''" "\<not> inBucket ?s' ''d1'' ''C''"
    "map_option ClusterDomain (nodeMap ?s' ''C'') = Some ''d2''" by simp_all
  from u reach_storeStale clusterOrders_storeABup a c show ?thesis by blast
qed

text \<open>
  The claim C4 as it is written fails on \<open>storeStale\<close>: A was indexed under \<open>d1\<close> by
  \<open>updateCluster\<close>, then \<open>AddNode\<close> set its domain to \<open>d2\<close> without touching the index,
  so A is in the bucket of \<open>d1\<close> and the \<open>ClusterDomain\<close> of its entry is not \<open>d1\<close>.
\<close>

theorem index_stale_counterexample:
  "reach anyOp storeStale \<and> inBucket storeStale ''d1'' ''A''
   \<and> map_option ClusterDomain (nodeMap storeStale ''A'') \<noteq> Some ''d1''"
  using reach_storeStale inBucket_storeStale ClusterDomain_storeStale by auto

text \<open>
  Claim C5, as amended. For a store whose self entry is in the domain \<open>d1\<close>,
  \<open>updateSelfClusterDomain\<close> with another domain \<open>d2\<close> returns true and sets the domain
  of the self entry to \<open>d2\<close>, with the time of the call, and changes nothing else: the
  failure-domain index is as it was, so every bucket has the ids it had, and in a
  store just made by \<open>NewGossipStore\<close> no bucket has any id, the one of \<open>d2\<close>
  included. A second call with \<open>d2\<close> returns false and the store is as it was.
\<close>

theorem updateSelfClusterDomain_leaves_index:
  assumes "nodeMap s (id_s s) = Some n" and "ClusterDomain n = d1" and "d1 \<noteq> d2"
  shows "fst (updateSelfClusterDomain s d2 now) = True
    \<and> snd (updateSelfClusterDomain s d2 now)
        = s\<lparr>nodeMap := (nodeMap s)(id_s s \<mapsto> n\<lparr>ClusterDomain := d2, LastUpdateTs := now\<rparr>)\<rparr>
    \<and> failureDomainsMap (snd (updateSelfClusterDomain s d2 now)) = failureDomainsMap s
    \<and> (\<forall>d i. inBucket (snd (updateSelfClusterDomain s d2 now)) d i \<longleftrightarrow> inBucket s d i)
    \<and> (\<forall>d i. \<not> inBucket
                  (snd (updateSelfClusterDomain
                          (NewGossipStore ident version clusterId d1 now0) d2 now)) d i)
    \<and> updateSelfClusterDomain (snd (updateSelfClusterDomain s d2 now)) d2 now'
        = (False, snd (updateSelfClusterDomain s d2 now))"
  using assms
  by (simp add: updateSelfClusterDomain_def lookupUnchecked_def Let_def inBucket_inIndex
        inIndex_def NewGossipStore_def InitStore_def zeroStore_def)

text \<open>Scenario S5 on the store of A: A moves to \<open>d2\<close> and is in no bucket.\<close>

theorem updateSelfClusterDomain_leaves_index_witness:
  "nodeMap storeA (id_s storeA) \<noteq> None
   \<and> ClusterDomain (lookupUnchecked (nodeMap storeA) (id_s storeA)) = ''d1''
   \<and> fst (updateSelfClusterDomain storeA ''d2'' 2) = True
   \<and> map_option ClusterDomain (nodeMap (snd (updateSelfClusterDomain storeA ''d2'' 2)) ''A'')
       = Some ''d2''
   \<and> failureDomainsMap (snd (updateSelfClusterDomain storeA ''d2'' 2)) = None
   \<and> \<not> inBucket (snd (updateSelfClusterDomain storeA ''d2'' 2)) ''d1'' ''A''
   \<and> \<not> inBucket (snd (updateSelfClusterDomain storeA ''d2'' 2)) ''d2'' ''A''
   \<and> updateSelfClusterDomain (snd (updateSelfClusterDomain storeA ''d2'' 2)) ''d2'' 3
        = (False, snd (updateSelfClusterDomain storeA ''d2'' 2))"
proof -
  have n: "nodeMap storeA (id_s storeA) = Some (lookupUnchecked (nodeMap storeA) (id_s storeA))"
    and d: "ClusterDomain (lookupUnchecked (nodeMap storeA) (id_s storeA)) = ''d1''"
    and i: "id_s storeA = ''A''"
    and f: "failureDomainsMap storeA = None"
    by (simp_all add: scenario_defs lookupUnchecked_def)
  have ne: "''d1'' \<noteq> ''d2''" by simp
  have b: "\<not> inBucket storeA ''d1'' ''A''" "\<not> inBucket storeA ''d2'' ''A''"
    by (simp_all add: inBucket_inIndex inIndex_def f)
  note t = updateSelfClusterDomain_leaves_index[OF n d ne, of 2 _ _ _ _ 3]
  from t have r: "fst (updateSelfClusterDomain storeA ''d2'' 2) = True" by blast
  from t have e: "snd (updateSelfClusterDomain storeA ''d2'' 2)
        = storeA\<lparr>nodeMap := (nodeMap storeA)(id_s storeA \<mapsto>
            (lookupUnchecked (nodeMap storeA) (id_s storeA))
              \<lparr>ClusterDomain := ''d2'', LastUpdateTs := 2\<rparr>)\<rparr>"
    by blast
  have c: "map_option ClusterDomain (nodeMap (snd (updateSelfClusterDomain storeA ''d2'' 2)) ''A'')
       = Some ''d2''"
    by (simp add: e i)
  from t f have m: "failureDomainsMap (snd (updateSelfClusterDomain storeA ''d2'' 2)) = None"
    by simp
  from t have "\<forall>d i. inBucket (snd (updateSelfClusterDomain storeA ''d2'' 2)) d i
                  \<longleftrightarrow> inBucket storeA d i"
    by blast
  with b have nb: "\<not> inBucket (snd (updateSelfClusterDomain storeA ''d2'' 2)) ''d1'' ''A''"
    "\<not> inBucket (snd (updateSelfClusterDomain storeA ''d2'' 2)) ''d2'' ''A''"
    by blast+
  from t have a: "updateSelfClusterDomain (snd (updateSelfClusterDomain storeA ''d2'' 2)) ''d2'' 3
        = (False, snd (updateSelfClusterDomain storeA ''d2'' 2))"
    by blast
  from n d r c m nb a show ?thesis by blast
qed

text \<open>
  The claim C5 as it is written fails on the store of A, initialised in \<open>d1\<close>:
  \<open>updateSelfClusterDomain("d2")\<close> returns true and A is not in the bucket of \<open>d2\<close>,
  since the function writes \<open>nodeMap\<close> only and never calls
  \<open>updateClusterDomainsMap\<close>.
\<close>

theorem updateSelfClusterDomain_no_reindex_counterexample:
  "map_option ClusterDomain (nodeMap storeA (id_s storeA)) = Some ''d1''
   \<and> fst (updateSelfClusterDomain storeA ''d2'' 2) = True
   \<and> \<not> inBucket (snd (updateSelfClusterDomain storeA ''d2'' 2)) ''d2'' (id_s storeA)"
  by (simp add: scenario_defs updateSelfClusterDomain_def lookupUnchecked_def Let_def
        inBucket_def getNodesFromClusterDomain_def)

end
